theory Spec2Isabelle
  imports Main "HOL-Library.Sublist" "HOL-Library.Word"
begin

section \<open>Strings and values of the runtime\<close>

text \<open>
  A string of the program is modelled as the list of the bytes of its UTF-8 encoding, so the
  characters of the templates that lie outside ASCII (the pound sign, the emoji, the arrow)
  are written as their bytes.  Template interpolation \<^verbatim>\<open>${x}\<close> is list append.
\<close>

text \<open>
  \<^verbatim>\<open>String.prototype.toLowerCase\<close>.  On UTF-8 bytes only the letters A to Z change.  The
  program uses the lower-cased string for nothing but a search for an ASCII word
  (\<^verbatim>\<open>includes('mba')\<close>, \<^verbatim>\<open>includes('verify')\<close>).  Outside ASCII the runtime lower-cases
  two characters to text with an ASCII letter in it: the Kelvin sign, to a k, which neither
  word has, and the dotted capital I, to an i followed by a combining dot, which is never
  the i before the f of \<^verbatim>\<open>verify\<close>.  So the searches agree with the runtime's.
\<close>

definition lower :: "char \<Rightarrow> char" where
  "lower c =
     (case map_of (zip ''ABCDEFGHIJKLMNOPQRSTUVWXYZ'' ''abcdefghijklmnopqrstuvwxyz'') c of
        None \<Rightarrow> c
      | Some l \<Rightarrow> l)"

definition toLowerCase :: "string \<Rightarrow> string" where
  "toLowerCase s = map lower s"

text \<open>\<^verbatim>\<open>s.includes(needle)\<close>: the needle occurs in \<open>s\<close> as a contiguous run.\<close>

definition includes_str :: "string \<Rightarrow> string \<Rightarrow> bool" where
  "includes_str s needle = sublist needle s"

text \<open>\<^verbatim>\<open>xs.join('')\<close>.\<close>

definition join :: "string list \<Rightarrow> string" where
  "join xs = concat xs"

text \<open>
  A value interpolated into a template is converted to a string: a property that is absent
  reads as \<^verbatim>\<open>undefined\<close> and prints as that word.
\<close>

definition interp :: "string option \<Rightarrow> string" where
  "interp v = (case v of None \<Rightarrow> ''undefined'' | Some s \<Rightarrow> s)"

text \<open>
  What a \<^verbatim>\<open>throw\<close> carries.  \<open>TypeError p\<close> is the error of reading the property
  \<open>p\<close> of \<^verbatim>\<open>undefined\<close>; \<open>SyntaxError\<close> is what \<^verbatim>\<open>JSON.parse\<close> raises;
  \<open>Error\<close> is any other instance of \<^verbatim>\<open>Error\<close>, and \<open>NonError\<close> a thrown value
  that is not one.
\<close>

datatype thrown = TypeError string | SyntaxError string | Error string | NonError

section \<open>The result document\<close>

text \<open>
  The parsed response, typed as \<^verbatim>\<open>responseSchema\<close> (index.tsx, lines 54-127) declares
  it.  The schema marks no property as required, so every property is optional: \<open>None\<close>
  is a property that is absent.  The two numbers of a course, \<^verbatim>\<open>rank\<close> and
  \<^verbatim>\<open>duration_months\<close>, are kept as the text the runtime prints for them: the program
  does nothing with them but interpolate them, and how the runtime prints a number (in
  digits, or with an exponent from \<open>10\<^sup>2\<^sup>1\<close> on) is then no part of the model.
\<close>

record profile_section =
  strengths :: "string list option"
  gaps :: "string list option"

record eligibility =
  is_eligible :: "bool option"
  reason :: "string option"

record course =
  rank :: "string option"
  university :: "string option"
  programme :: "string option"
  city :: "string option"
  url :: "string option"
  start_cycle :: "string option"
  duration_months :: "string option"
  fee_gbp :: "string option"
  chevening_rationale :: "string list option"
  eligibility_check :: "eligibility option"
  score_breakdown :: "string option"

record trio_entry =
  trio_university :: "string option"
  trio_programme :: "string option"
  why_this_trio :: "string option"

record bullets_section =
  leadership :: "string list option"
  networking :: "string list option"
  career_plan :: "string list option"

record alternative =
  alt_university :: "string option"
  alt_programme :: "string option"
  alt_url :: "string option"
  why_consider :: "string option"

record result_document =
  profile :: "profile_section option"
  ranked_courses :: "course list option"
  chevening_trio :: "trio_entry list option"
  personal_statement_bullets :: "bullets_section option"
  alternatives :: "alternative list option"
  "notes" :: "string list option"

section \<open>The fragment generators\<close>

text \<open>The callback \<^verbatim>\<open>s => `<li>${s}</li>`\<close> of the list renderings.\<close>

definition li :: "string \<Rightarrow> string" where
  "li s = ''<li>'' @ s @ ''</li>''"

text \<open>
  \<^verbatim>\<open>xs.map(f)\<close> for a callback that may throw: the elements are visited in order and the
  first throw ends the call.
\<close>

fun map_throwing :: "('a \<Rightarrow> thrown + string) \<Rightarrow> 'a list \<Rightarrow> thrown + string list" where
  "map_throwing f [] = Inr []"
| "map_throwing f (x # xs) =
     (case f x of
        Inl e \<Rightarrow> Inl e
      | Inr h \<Rightarrow> (case map_throwing f xs of Inl e \<Rightarrow> Inl e | Inr hs \<Rightarrow> Inr (h # hs)))"

text \<open>\<^verbatim>\<open>renderProfileAnalysis\<close> (index.tsx, lines 242-259).\<close>

definition renderProfileAnalysis :: "profile_section \<Rightarrow> string" where
  \<open>renderProfileAnalysis p =
     (case (strengths p, gaps p) of
        (Some ss, Some gs) \<Rightarrow>
            ''\<newline>'' @
            ''      <div id="profile-analysis-section" class="result-category">\<newline>'' @
            ''        <h2>CV Analysis vs. Chevening Criteria</h2>\<newline>'' @
            ''        <div class="profile-columns">\<newline>'' @
            ''            <div class="profile-column">\<newline>'' @
            ''                <h3>Strengths</h3>\<newline>'' @
            ''                <ul>''
          @ join (map li ss) @
            ''</ul>\<newline>'' @
            ''            </div>\<newline>'' @
            ''            <div class="profile-column">\<newline>'' @
            ''                <h3>Potential Gaps</h3>\<newline>'' @
            ''                <ul>''
          @ join (map li gs) @
            ''</ul>\<newline>'' @
            ''            </div>\<newline>'' @
            ''        </div>\<newline>'' @
            ''      </div>\<newline>'' @
            ''    ''
      | _ \<Rightarrow> [])\<close>

text \<open>The two fixed advisories (index.tsx, lines 264 and 272; the second again at line 300).\<close>

definition diversifyAdvisory :: string where
  \<open>diversifyAdvisory =
            ''<p class="trio-warning"><strong>Note:</strong> All three choices are from the same university. This is permitted, but Chevening often recommends diversifying your choices to spread risk.</p>''\<close>

definition mbaAdvisory :: string where
  \<open>mbaAdvisory =
            ''<p class="mba-warning"><strong>MBA Fee Cap:</strong> Chevening caps MBA tuition at '' @ [CHR 0xC2, CHR 0xA3] @ ''22,000. You must fund any difference.</p>''\<close>

text \<open>
  \<^verbatim>\<open>renderTrio\<close> (index.tsx, lines 261-284).  \<open>trioCard\<close> is the callback of
  \<^verbatim>\<open>trio.map\<close>; it throws when \<^verbatim>\<open>course.programme\<close> is absent, since it calls
  \<^verbatim>\<open>toLowerCase\<close> on it.  \<^verbatim>\<open>new Set(xs).size\<close> is the number of distinct elements.
\<close>

definition trioCard :: "trio_entry \<Rightarrow> thrown + string" where
  \<open>trioCard c =
     (case trio_programme c of
        None \<Rightarrow> Inl (TypeError ''toLowerCase'')
      | Some prog \<Rightarrow>
          (let isMBA = includes_str (toLowerCase prog) ''mba'';
               mbaWarning = (if isMBA then mbaAdvisory else [])
           in Inr (
            ''\<newline>'' @
            ''            <div class="trio-card">\<newline>'' @
            ''              <h3>''
             @ prog @
            ''</h3>\<newline>'' @
            ''              <p class="university">''
             @ interp (trio_university c) @
            ''</p>\<newline>'' @
            ''              <p>''
             @ interp (why_this_trio c) @
            ''</p>\<newline>'' @
            ''              ''
             @ mbaWarning @
            ''\<newline>'' @
            ''            </div>\<newline>'' @
            ''          '')))\<close>

definition renderTrio :: "trio_entry list \<Rightarrow> thrown + string" where
  \<open>renderTrio trio =
     (let universities = remdups (map trio_university trio);
          singleUniversityWarning =
            (if length universities = 1 \<and> length trio > 1 then diversifyAdvisory else [])
      in case map_throwing trioCard trio of
           Inl e \<Rightarrow> Inl e
         | Inr cards \<Rightarrow> Inr (
            ''\<newline>'' @
            ''      <div class="result-category">\<newline>'' @
            ''        <h2>Your Recommended Chevening Trio</h2>\<newline>'' @
            ''        ''
             @ singleUniversityWarning @
            ''\<newline>'' @
            ''        ''
             @ join cards @
            ''\<newline>'' @
            ''      </div>\<newline>'' @
            ''    ''))\<close>

text \<open>
  \<^verbatim>\<open>renderRankedCourses\<close> (index.tsx, lines 286-335).  \<open>courseCard\<close> is the callback of
  \<^verbatim>\<open>courses.map\<close>.  A string is truthy when it is present and not empty; an object is
  truthy when it is present.  The callback throws when \<^verbatim>\<open>programme\<close> is absent, and then
  when \<^verbatim>\<open>chevening_rationale\<close> is.
\<close>

definition truthy :: "string option \<Rightarrow> bool" where
  "truthy v = (case v of None \<Rightarrow> False | Some s \<Rightarrow> s \<noteq> [])"

definition eligibilityBadge :: "eligibility option \<Rightarrow> string" where
  \<open>eligibilityBadge ec =
     (case ec of
        None \<Rightarrow> []
      | Some e \<Rightarrow>
          (if is_eligible e = Some True
           then
            ''<span class="eligibility-badge">Chevening-eligible '' @ [CHR 0xE2, CHR 0x9C, CHR 0x85] @ ''</span>''
           else
            ''<span class="eligibility-badge ineligible">Ineligible '' @ [CHR 0xE2, CHR 0x9D, CHR 0x8C] @ ''</span>''))\<close>

definition eligibilityReason :: "eligibility option \<Rightarrow> string" where
  \<open>eligibilityReason ec =
     (case ec of
        None \<Rightarrow> []
      | Some e \<Rightarrow>
          (if is_eligible e \<noteq> Some True
           then ''<p class="ineligible-reason">'' @ interp (reason e) @ ''</p>''
           else []))\<close>

definition feeDisplay :: "string option \<Rightarrow> string" where
  \<open>feeDisplay fee =
     (if truthy fee \<and> includes_str (toLowerCase (the fee)) ''verify''
      then ''<span class="verify-chip">'' @ interp fee @ ''</span>''
      else [CHR 0xF0, CHR 0x9F, CHR 0x92, CHR 0xB7] @ '' '' @ (if truthy fee then the fee else ''N/A''))\<close>

definition scoreDisclosure :: "string option \<Rightarrow> string" where
  \<open>scoreDisclosure sb =
     (if truthy sb then
            ''\<newline>'' @
            ''              <details class="score-breakdown">\<newline>'' @
            ''                  <summary>Why this rank?</summary>\<newline>'' @
            ''                  <p>''
        @ interp sb @
            ''</p>\<newline>'' @
            ''              </details>\<newline>'' @
            ''              ''
      else [])\<close>

definition courseCard :: "course \<Rightarrow> thrown + string" where
  \<open>courseCard c =
     (case programme c of
        None \<Rightarrow> Inl (TypeError ''toLowerCase'')
      | Some prog \<Rightarrow>
          (let isMBA = includes_str (toLowerCase prog) ''mba'';
               mbaWarning = (if isMBA then mbaAdvisory else [])
           in case chevening_rationale c of
                None \<Rightarrow> Inl (TypeError ''map'')
              | Some rationale \<Rightarrow> Inr (
            ''\<newline>'' @
            ''            <div class="course-card">\<newline>'' @
            ''              <h3>''
                  @ interp (rank c) @ ''. '' @ prog @
            ''</h3>\<newline>'' @
            ''              <p class="university">''
                  @ interp (university c) @
            ''</p>\<newline>'' @
            ''              ''
                  @ eligibilityBadge (eligibility_check c) @
            ''\<newline>'' @
            ''              ''
                  @ eligibilityReason (eligibility_check c) @
            ''\<newline>'' @
            ''              ''
                  @ mbaWarning @
            ''\<newline>'' @
            ''              <div class="details">\<newline>'' @
            ''                <span>'' @ [CHR 0xF0, CHR 0x9F, CHR 0x93, CHR 0x8D] @ '' ''
                  @ interp (city c) @
            ''</span>\<newline>'' @
            ''                <span>'' @ [CHR 0xF0, CHR 0x9F, CHR 0x97, CHR 0x93, CHR 0xEF, CHR 0xB8, CHR 0x8F] @ '' ''
                  @ interp (start_cycle c) @
            ''</span>\<newline>'' @
            ''                <span>'' @ [CHR 0xE2, CHR 0x8F, CHR 0xB3] @ '' ''
                  @ interp (duration_months c) @
            '' months</span>\<newline>'' @
            ''                <span>''
                  @ feeDisplay (fee_gbp c) @
            ''</span>\<newline>'' @
            ''              </div>\<newline>'' @
            ''              ''
                  @ scoreDisclosure (score_breakdown c) @
            ''\<newline>'' @
            ''              <div class="chevening-rationale">\<newline>'' @
            ''                <strong>Chevening Rationale:</strong>\<newline>'' @
            ''                <ul>\<newline>'' @
            ''                  ''
                  @ join (map li rationale) @
            ''\<newline>'' @
            ''                </ul>\<newline>'' @
            ''              </div>\<newline>'' @
            ''              <p><a href="''
                  @ interp (url c) @
            ''" target="_blank" rel="noopener noreferrer">Visit course page '' @ [CHR 0xE2, CHR 0x86, CHR 0x92] @ ''</a></p>\<newline>'' @
            ''            </div>\<newline>'' @
            ''          '')))\<close>

definition renderRankedCourses :: "course list \<Rightarrow> thrown + string" where
  \<open>renderRankedCourses courses =
     (case map_throwing courseCard courses of
        Inl e \<Rightarrow> Inl e
      | Inr cards \<Rightarrow> Inr (
            ''\<newline>'' @
            ''      <div class="result-category">\<newline>'' @
            ''        <h2>Top Ranked Courses</h2>\<newline>'' @
            ''        ''
          @ join cards @
            ''\<newline>'' @
            ''      </div>\<newline>'' @
            ''    ''))\<close>

text \<open>
  \<^verbatim>\<open>renderBullets\<close> (index.tsx, lines 337-349): each of the three lists is mapped with no
  check that it is present, in the order leadership, networking, career plan.
\<close>

definition renderBullets :: "bullets_section \<Rightarrow> thrown + string" where
  \<open>renderBullets b =
     (case leadership b of
        None \<Rightarrow> Inl (TypeError ''map'')
      | Some ls \<Rightarrow>
     (case networking b of
        None \<Rightarrow> Inl (TypeError ''map'')
      | Some ns \<Rightarrow>
     (case career_plan b of
        None \<Rightarrow> Inl (TypeError ''map'')
      | Some cs \<Rightarrow> Inr (
            ''\<newline>'' @
            ''        <div class="result-category personal-statement-bullets">\<newline>'' @
            ''            <h2>Personal Statement Talking Points</h2>\<newline>'' @
            ''            <h4>Leadership</h4>\<newline>'' @
            ''            <ul>''
          @ join (map li ls) @
            ''</ul>\<newline>'' @
            ''            <h4>Networking</h4>\<newline>'' @
            ''            <ul>''
          @ join (map li ns) @
            ''</ul>\<newline>'' @
            ''            <h4>Career Plan</h4>\<newline>'' @
            ''            <ul>''
          @ join (map li cs) @
            ''</ul>\<newline>'' @
            ''        </div>\<newline>'' @
            ''    ''))))\<close>

text \<open>
  \<^verbatim>\<open>renderAlternatives\<close> of the second variant of the script (lines 318-332 there), with
  \<open>altCard\<close> the callback of \<^verbatim>\<open>alternatives.map\<close>.  The function of that name in
  index.tsx (lines 351-365) is no function that can be modelled: its line 362 reads
  \<^verbatim>\<open>}).join('')}\<close>, with a brace where the second variant closes the card's template
  with a backquote, so the template is not closed and the text does not parse.  What is
  proved below about the blocks of a document is proved for documents that hold no
  alternatives, where this function is not called.
\<close>

definition altCard :: "alternative \<Rightarrow> string" where
  \<open>altCard a =
            ''\<newline>'' @
            ''          <div class="course-card">\<newline>'' @
            ''             <h3>''
     @ interp (alt_programme a) @
            ''</h3>\<newline>'' @
            ''             <p class="university">''
     @ interp (alt_university a) @
            ''</p>\<newline>'' @
            ''             <p>''
     @ interp (why_consider a) @
            ''</p>\<newline>'' @
            ''             <p><a href="''
     @ interp (alt_url a) @
            ''" target="_blank" rel="noopener noreferrer">Visit course page '' @ [CHR 0xE2, CHR 0x86, CHR 0x92] @ ''</a></p>\<newline>'' @
            ''          </div>\<newline>'' @
            ''        ''\<close>

definition renderAlternatives :: "alternative list \<Rightarrow> string" where
  \<open>renderAlternatives alts =
            ''\<newline>'' @
            ''      <div class="result-category">\<newline>'' @
            ''        <h2>Alternative Options</h2>\<newline>'' @
            ''        ''
     @ join (map altCard alts) @
            ''\<newline>'' @
            ''      </div>\<newline>'' @
            ''    ''\<close>

text \<open>\<^verbatim>\<open>renderNotes\<close> (index.tsx, lines 366-375).\<close>

definition renderNotes :: "string list \<Rightarrow> string" where
  \<open>renderNotes ns =
            ''\<newline>'' @
            ''        <div class="result-category">\<newline>'' @
            ''            <h2>Important Notes</h2>\<newline>'' @
            ''            <ul>\<newline>'' @
            ''                ''
     @ join (map li ns) @
            ''\<newline>'' @
            ''            </ul>\<newline>'' @
            ''        </div>\<newline>'' @
            ''    ''\<close>


section \<open>The page and its controller\<close>

text \<open>
  The part of the document the controller reads and writes: for each section whether its
  class list holds \<^verbatim>\<open>hidden\<close>, the markup of the results and of the error section, the
  submit button, the loading message, and the rotation timer of \<^verbatim>\<open>showLoading\<close>
  (the handle in \<^verbatim>\<open>messageInterval\<close> and the intervals that are live).  The markup of
  a section is the string last assigned to its \<^verbatim>\<open>innerHTML\<close>.  Reading
  \<^verbatim>\<open>innerHTML\<close> does not give that string back: the runtime has parsed it, and
  returns its own serialisation of what it has parsed (a \<^verbatim>\<open>&\<close> in a text comes back
  as \<^verbatim>\<open>&amp;\<close>).  That serialisation is a function of the string assigned; it is the
  parameter \<open>readBack\<close> of what reads the markup of the results.
\<close>

record ui =
  inputHidden :: bool
  loadingHidden :: bool
  errorHidden :: bool
  resultsHTML :: string
  errorHTML :: string
  submitDisabled :: bool
  loadingText :: string
  messageInterval :: "nat option"
  intervals :: "nat list"
  nextInterval :: nat

definition loadingMessages :: "string list" where
  "loadingMessages =
     [''Analyzing your CV against Chevening criteria...'',
      ''Searching the official course database...'',
      ''Scoring and ranking top matches...'',
      ''Compiling your personalized strategy...'',
      ''This may take a moment. Great recommendations are on their way!'']"

text \<open>
  \<^verbatim>\<open>showLoading\<close> (index.tsx, lines 189-210).  \<^verbatim>\<open>setInterval\<close> returns a fresh handle
  and \<^verbatim>\<open>clearInterval\<close> stops the interval its argument names.
\<close>

definition showLoading :: "bool \<Rightarrow> ui \<Rightarrow> ui" where
  "showLoading show s =
     (if show then
        s\<lparr>inputHidden := True,
          resultsHTML := [],
          errorHidden := True,
          loadingHidden := False,
          submitDisabled := True,
          loadingText := loadingMessages ! 0,
          messageInterval := Some (nextInterval s),
          intervals := nextInterval s # intervals s,
          nextInterval := Suc (nextInterval s)\<rparr>
      else
        s\<lparr>loadingHidden := True,
          inputHidden := False,
          submitDisabled := False,
          intervals :=
            (case messageInterval s of
               None \<Rightarrow> intervals s
             | Some h \<Rightarrow> removeAll h (intervals s))\<rparr>)"

text \<open>
  \<^verbatim>\<open>showError\<close> (index.tsx, lines 212-216; the same text in the second variant of the
  script, lines 171-175 there).
\<close>

definition showError :: "string \<Rightarrow> ui \<Rightarrow> ui" where
  \<open>showError message s =
     s\<lparr>resultsHTML := [],
       errorHTML := ''<p><strong>An error occurred:</strong> '' @ message @ ''</p><p>Please try again.</p>'',
       errorHidden := False\<rparr>\<close>

text \<open>
  \<^verbatim>\<open>renderResults\<close> (index.tsx, lines 219-240).  Each section that is present is rendered
  and appended to the results: \<^verbatim>\<open>resultsSection.innerHTML += h\<close> reads the markup of the
  results back from the runtime and assigns it again with \<open>h\<close> after it.  A generator
  that throws leaves what was assigned before it.  \<open>Inl (e, s)\<close> is a throw of \<open>e\<close>
  with the page left as \<open>s\<close>.
\<close>

definition append_section ::
  "(string \<Rightarrow> string) \<Rightarrow> 'a option \<Rightarrow> ('a \<Rightarrow> thrown + string) \<Rightarrow> ui \<Rightarrow>
     (thrown \<times> ui) + ui" where
  "append_section readBack v render s =
     (case v of
        None \<Rightarrow> Inr s
      | Some x \<Rightarrow>
          (case render x of
             Inl e \<Rightarrow> Inl (e, s)
           | Inr h \<Rightarrow> Inr (s\<lparr>resultsHTML := readBack (resultsHTML s) @ h\<rparr>)))"

definition and_then ::
  "(thrown \<times> ui) + ui \<Rightarrow> (ui \<Rightarrow> (thrown \<times> ui) + ui) \<Rightarrow> (thrown \<times> ui) + ui" where
  "and_then r f = (case r of Inl es \<Rightarrow> Inl es | Inr s \<Rightarrow> f s)"

definition renderResults ::
  "(string \<Rightarrow> string) \<Rightarrow> result_document \<Rightarrow> ui \<Rightarrow> (thrown \<times> ui) + ui" where
  "renderResults readBack d s =
     and_then (and_then (and_then (and_then (and_then
       (append_section readBack (profile d) (\<lambda>p. Inr (renderProfileAnalysis p))
          (s\<lparr>resultsHTML := []\<rparr>))
       (append_section readBack (chevening_trio d) renderTrio))
       (append_section readBack (ranked_courses d) renderRankedCourses))
       (append_section readBack (personal_statement_bullets d) renderBullets))
       (append_section readBack (alternatives d) (\<lambda>a. Inr (renderAlternatives a))))
       (append_section readBack (notes d) (\<lambda>n. Inr (renderNotes n)))"

section \<open>The file encoder\<close>

text \<open>
  A file as the form hands it over: its name, its MIME type, its bytes, and whether the
  runtime can read it when asked to.
\<close>

record js_file =
  file_name :: string
  file_type :: string
  content :: "8 word list"
  readable :: bool

text \<open>
  The base64 encoding the runtime puts into a data URL (RFC 4648, with padding): three
  bytes become four symbols.  It is the runtime's, not the repository's.
\<close>

definition base64_alphabet :: string where
  "base64_alphabet = ''ABCDEFGHIJKLMNOPQRSTUVWXYZabcdefghijklmnopqrstuvwxyz0123456789+/''"

fun base64 :: "8 word list \<Rightarrow> string" where
  "base64 [] = []"
| "base64 [a] =
     [base64_alphabet ! (unat a div 4),
      base64_alphabet ! (unat a mod 4 * 16),
      CHR ''='', CHR ''='']"
| "base64 [a, b] =
     [base64_alphabet ! (unat a div 4),
      base64_alphabet ! (unat a mod 4 * 16 + unat b div 16),
      base64_alphabet ! (unat b mod 16 * 4),
      CHR ''='']"
| "base64 (a # b # c # rest) =
     [base64_alphabet ! (unat a div 4),
      base64_alphabet ! (unat a mod 4 * 16 + unat b div 16),
      base64_alphabet ! (unat b mod 16 * 4 + unat c div 64),
      base64_alphabet ! (unat c mod 64)] @ base64 rest"

text \<open>
  Modelled from the spec: the decoding of a transport representation, which the
  repository does not hold (it only encodes; the reader of the transport is the model
  service).  The spec names the representation as base64 data with a MIME type, so the
  decoding is that of RFC 4648.  \<open>None\<close> is text that is not base64.
\<close>

definition base64_value :: "char \<Rightarrow> nat option" where
  "base64_value c = map_of (zip base64_alphabet [0..<64]) c"

fun base64_decode :: "string \<Rightarrow> 8 word list option" where
  "base64_decode [] = Some []"
| "base64_decode (w # x # y # z # rest) =
     (if rest = [] \<and> y = CHR ''='' \<and> z = CHR ''='' then
        (case (base64_value w, base64_value x) of
           (Some p, Some q) \<Rightarrow> Some [of_nat (p * 4 + q div 16)]
         | _ \<Rightarrow> None)
      else if rest = [] \<and> z = CHR ''='' then
        (case (base64_value w, base64_value x, base64_value y) of
           (Some p, Some q, Some r) \<Rightarrow>
             Some [of_nat (p * 4 + q div 16), of_nat (q mod 16 * 16 + r div 4)]
         | _ \<Rightarrow> None)
      else
        (case (base64_value w, base64_value x, base64_value y, base64_value z) of
           (Some p, Some q, Some r, Some t) \<Rightarrow>
             (case base64_decode rest of
                None \<Rightarrow> None
              | Some bs \<Rightarrow>
                  Some (of_nat (p * 4 + q div 16) # of_nat (q mod 16 * 16 + r div 4) #
                        of_nat (r mod 4 * 64 + t) # bs))
         | _ \<Rightarrow> None))"
| "base64_decode _ = None"

text \<open>
  \<^verbatim>\<open>FileReader.readAsDataURL\<close>: when the read succeeds, \<^verbatim>\<open>reader.result\<close> is the data
  URL of the file at \<^verbatim>\<open>loadend\<close>, in the form the File API gives it: the prefix
  \<^verbatim>\<open>data:\<close>, the type, \<^verbatim>\<open>;base64,\<close> and the payload; when it fails, \<^verbatim>\<open>loadend\<close> is fired all the same and
  \<^verbatim>\<open>reader.result\<close> is \<^verbatim>\<open>null\<close>, here \<open>None\<close>.
\<close>

definition readAsDataURL :: "js_file \<Rightarrow> string option" where
  "readAsDataURL f =
     (if readable f then Some (''data:'' @ file_type f @ '';base64,'' @ base64 (content f))
      else None)"

text \<open>
  \<^verbatim>\<open>s.split(sep)\<close> for a separator of one character, and \<^verbatim>\<open>xs[i]\<close>, which is
  \<^verbatim>\<open>undefined\<close> past the end.
\<close>

fun split_str :: "char \<Rightarrow> string \<Rightarrow> string list" where
  "split_str sep [] = [[]]"
| "split_str sep (c # cs) =
     (if c = sep then [] # split_str sep cs
      else (case split_str sep cs of
              [] \<Rightarrow> [[c]]
            | x # xs \<Rightarrow> (c # x) # xs))"

definition at_index :: "'a list \<Rightarrow> nat \<Rightarrow> 'a option" where
  "at_index xs i = (if i < length xs then Some (xs ! i) else None)"

text \<open>
  \<^verbatim>\<open>fileToGenerativePart\<close> (index.tsx, lines 170-186; the same text in the second
  variant of the script, lines 129-145 there).  The promise of the base64 text is
  built with a \<^verbatim>\<open>resolve\<close> and no \<^verbatim>\<open>reject\<close>, and settles only inside the
  \<^verbatim>\<open>onloadend\<close> handler.  When the read has failed the handler calls \<^verbatim>\<open>split\<close> on
  \<^verbatim>\<open>null\<close>: the \<^verbatim>\<open>TypeError\<close> is raised inside the event handler, outside the
  promise, which is then never settled.
\<close>

datatype 'a promise = Pending | Fulfilled 'a | Rejected thrown

record inline_data =
  data :: "string option"
  mimeType :: string

definition fileToGenerativePart :: "js_file \<Rightarrow> inline_data promise" where
  "fileToGenerativePart f =
     (case readAsDataURL f of
        None \<Rightarrow> Pending
      | Some dataUrl \<Rightarrow>
          Fulfilled \<lparr>data = at_index (split_str (CHR '','') dataUrl) 1, mimeType = file_type f\<rparr>)"

text \<open>
  Modelled from the spec: reading a transport representation back into bytes and a
  MIME type, with the decoding above.
\<close>

definition decode_part :: "inline_data \<Rightarrow> (8 word list \<times> string) option" where
  "decode_part part =
     (case data part of
        None \<Rightarrow> None
      | Some payload \<Rightarrow>
          (case base64_decode payload of
             None \<Rightarrow> None
           | Some bytes \<Rightarrow> Some (bytes, mimeType part)))"

section \<open>The submit listener\<close>

text \<open>
  What the form holds when it is submitted, the request the listener sends, and what the
  model service answers: the call rejects with a thrown value, or resolves with a response
  whose \<^verbatim>\<open>text\<close> may be \<^verbatim>\<open>undefined\<close>.  The system instruction, the response schema and
  the model name are the same in every request and are left out of it.
\<close>

record form =
  cvFile :: "js_file option"
  fields_input :: string
  locations_input :: string
  impact_input :: string
  year_input :: string

record request =
  filePart :: inline_data
  textPart :: string

datatype response = Rejects thrown | Resolves "string option"

definition allowedTypes :: "string list" where
  "allowedTypes =
     [''application/pdf'',
      ''application/vnd.openxmlformats-officedocument.wordprocessingml.document'']"

definition userPromptText :: "form \<Rightarrow> string" where
  \<open>userPromptText frm =
            ''\<newline>'' @
            ''          Task: Pick Chevening-eligible UK master'' @ [CHR 0xE2, CHR 0x80, CHR 0x99] @ ''s courses that best match my CV and career plan. The CV is provided in the attached file.\<newline>'' @
            ''          \<newline>'' @
            ''          Inputs:\<newline>'' @
            ''          Target fields: "''
     @ fields_input frm @
            ''"\<newline>'' @
            ''          Preferred UK locations: "''
     @ locations_input frm @
            ''"\<newline>'' @
            ''          Timeline: must start Sep/Oct ''
     @ year_input frm @
            ''\<newline>'' @
            ''          Country-impact one-liner: "''
     @ impact_input frm @
            ''"\<newline>'' @
            ''    \<newline>'' @
            ''          Return JSON output per the required schema. Analyze the CV file to extract the candidate'' @ [CHR 0x27] @ ''s profile, skills, and experience to inform the course matching.\<newline>'' @
            ''        ''\<close>

text \<open>
  The message of a thrown value and whether it is an instance of \<^verbatim>\<open>Error\<close>.  The text of
  a \<^verbatim>\<open>TypeError\<close> is the engine's.
\<close>

fun instanceofError :: "thrown \<Rightarrow> bool" where
  "instanceofError NonError = False"
| "instanceofError _ = True"

fun message_of :: "thrown \<Rightarrow> string" where
  "message_of (TypeError p) =
     ''Cannot read properties of undefined (reading '' @ [CHR 0x27] @ p @ [CHR 0x27] @ '')''"
| "message_of (SyntaxError m) = m"
| "message_of (Error m) = m"
| "message_of NonError = []"

text \<open>The \<^verbatim>\<open>catch\<close> block followed by the \<^verbatim>\<open>finally\<close> block (index.tsx, lines 466-473).\<close>

definition catch_finally :: "thrown \<Rightarrow> ui \<Rightarrow> ui" where
  "catch_finally e s =
     showLoading False
       (showError
          (if instanceofError e then message_of e
           else ''Could not process the file or parse the response from the model.'') s)"

text \<open>
  The listener (index.tsx, lines 414-474; the second variant of the script has the same
  listener at its lines 177-239).  Its parameters are the three things it uses
  outside the repository: \<open>readBack\<close>, the markup the runtime returns for the results,
  \<open>generateContent\<close>, the model service, and \<open>parse\<close>, which is
  \<^verbatim>\<open>JSON.parse\<close> after \<^verbatim>\<open>trim\<close> (\<open>Inl\<close> is the \<^verbatim>\<open>SyntaxError\<close> it throws, or
  the \<^verbatim>\<open>TypeError\<close> of the first property read when the parsed value is no object).  The
  listener is asynchronous; a run records the page when the listener has come to rest, the
  requests it has sent, and whether it has returned: it has not when it awaits a promise
  that is never settled.
\<close>

record run =
  page :: ui
  sent :: "request list"
  returned :: bool

definition submit ::
  "(string \<Rightarrow> string) \<Rightarrow> (request \<Rightarrow> response) \<Rightarrow> (string \<Rightarrow> thrown + result_document) \<Rightarrow>
     form \<Rightarrow> ui \<Rightarrow> run" where
  "submit readBack generateContent parse frm s =
     (case cvFile frm of
        None \<Rightarrow>
          \<lparr>page = showError ''Please upload your CV file.'' s, sent = [], returned = True\<rparr>
      | Some f \<Rightarrow>
          if file_type f \<notin> set allowedTypes then
            \<lparr>page = showError ''Invalid file type. Please upload a PDF or DOCX file.'' s,
             sent = [], returned = True\<rparr>
          else
            (let s1 = showLoading True s
             in case fileToGenerativePart f of
                  Pending \<Rightarrow> \<lparr>page = s1, sent = [], returned = False\<rparr>
                | Rejected e \<Rightarrow> \<lparr>page = catch_finally e s1, sent = [], returned = True\<rparr>
                | Fulfilled part \<Rightarrow>
                    (let req = \<lparr>filePart = part, textPart = userPromptText frm\<rparr>
                     in case generateContent req of
                          Rejects e \<Rightarrow>
                            \<lparr>page = catch_finally e s1, sent = [req], returned = True\<rparr>
                        | Resolves None \<Rightarrow>
                            \<lparr>page = catch_finally (TypeError ''trim'') s1, sent = [req],
                             returned = True\<rparr>
                        | Resolves (Some txt) \<Rightarrow>
                            (case parse txt of
                               Inl e \<Rightarrow>
                                 \<lparr>page = catch_finally e s1, sent = [req], returned = True\<rparr>
                             | Inr d \<Rightarrow>
                                 (case renderResults readBack d s1 of
                                    Inl (e, s2) \<Rightarrow>
                                      \<lparr>page = catch_finally e s2, sent = [req], returned = True\<rparr>
                                  | Inr s2 \<Rightarrow>
                                      \<lparr>page = showLoading False s2, sent = [req],
                                       returned = True\<rparr>)))))"

section \<open>The deadline countdown\<close>

text \<open>
  \<^verbatim>\<open>setDeadline\<close> (index.tsx, lines 142-167).  Times are milliseconds since the epoch, as
  \<^verbatim>\<open>Date.getTime\<close> gives them; the deadline is 7 October 2025, 12:00 UTC.  The state is
  the text of the countdown and whether the interval in \<^verbatim>\<open>countdownInterval\<close> is live.
\<close>

record countdown =
  display :: string
  live :: bool

definition deadline :: int where
  "deadline = 1759838400000"

text \<open>
  An integer interpolated into a template prints in decimal digits.  (The runtime does so
  for every integer below \<open>10\<^sup>2\<^sup>1\<close> in size; the numbers of the countdown are
  differences of two times of \<^verbatim>\<open>Date\<close>, which lie within
  8640000000000000 milliseconds of the epoch.)
\<close>

fun show_nat :: "nat \<Rightarrow> string" where
  "show_nat n =
     (if n < 10 then [''0123456789'' ! n]
      else show_nat (n div 10) @ [''0123456789'' ! (n mod 10)])"

declare show_nat.simps [simp del]

definition show_int :: "int \<Rightarrow> string" where
  "show_int i = (if i < 0 then CHR ''-'' # show_nat (nat (- i)) else show_nat (nat i))"

text \<open>
  The text \<^verbatim>\<open>${days}d ${hours}h ${minutes}m ${seconds}s\<close>.  It is computed for a positive
  difference only, where \<^verbatim>\<open>Math.floor\<close> of a quotient is \<open>div\<close> and \<^verbatim>\<open>%\<close> is \<open>mod\<close>.
\<close>

definition remaining_text :: "int \<Rightarrow> string" where
  "remaining_text diff =
     (let days = diff div (1000 * 60 * 60 * 24);
          hours = diff mod (1000 * 60 * 60 * 24) div (1000 * 60 * 60);
          minutes = diff mod (1000 * 60 * 60) div (1000 * 60);
          seconds = diff mod (1000 * 60) div 1000
      in show_int days @ ''d '' @ show_int hours @ ''h '' @
         show_int minutes @ ''m '' @ show_int seconds @ ''s'')"

definition updateCountdown :: "int \<Rightarrow> countdown \<Rightarrow> countdown" where
  "updateCountdown now s =
     (let diff = deadline - now
      in if diff \<le> 0 then s\<lparr>display := ''The deadline has passed.'', live := False\<rparr>
         else s\<lparr>display := remaining_text diff\<rparr>)"

definition setDeadline :: "int \<Rightarrow> countdown \<Rightarrow> countdown" where
  "setDeadline now s = updateCountdown now (s\<lparr>live := True\<rparr>)"

text \<open>
  One firing of the interval: the clock has moved on, and \<^verbatim>\<open>updateCountdown\<close> runs if the
  interval is still live.  A configuration is the clock with the state.
\<close>

inductive tick :: "int \<times> countdown \<Rightarrow> int \<times> countdown \<Rightarrow> bool" where
  fires: "live s \<Longrightarrow> 0 < d \<Longrightarrow> tick (now, s) (now + d, updateCountdown (now + d) s)"
| stopped: "\<not> live s \<Longrightarrow> 0 < d \<Longrightarrow> tick (now, s) (now + d, s)"

section \<open>Notions the properties are stated with\<close>

text \<open>The page a result of \<open>renderResults\<close> leaves, thrown or not.\<close>

fun outcome_page :: "(thrown \<times> ui) + ui \<Rightarrow> ui" where
  "outcome_page (Inl (e, s)) = s"
| "outcome_page (Inr s) = s"

text \<open>Rendered results and a filled error panel that is not hidden, both on the page.\<close>

definition results_beside_error :: "ui \<Rightarrow> bool" where
  "results_beside_error s = (resultsHTML s \<noteq> [] \<and> \<not> errorHidden s \<and> errorHTML s \<noteq> [])"

text \<open>
  The operations of the controller on the page: showing an error, switching the loading
  view on or off, and a whole run of the submit listener, whatever the runtime, the service
  and the parser answer.
\<close>

inductive controller_step :: "ui \<Rightarrow> ui \<Rightarrow> bool" where
  error_shown: "controller_step s (showError m s)"
| loading_switched: "controller_step s (showLoading b s)"
| submitted: "controller_step s (page (submit readBack generateContent parse frm s))"

subsection \<open>Sections and their blocks\<close>

text \<open>
  The six sections of a result document in the order the renderer goes through them, which
  of them a document holds, and the block the generator of a section returns for it
  (\<open>fragment\<close> reads a generator's result, a throw as no text).
\<close>

datatype kind = ProfileK | TrioK | RankedK | BulletsK | AlternativesK | NotesK

definition fixed_order :: "kind list" where
  "fixed_order = [ProfileK, TrioK, RankedK, BulletsK, AlternativesK, NotesK]"

fun present :: "result_document \<Rightarrow> kind \<Rightarrow> bool" where
  "present d ProfileK = (profile d \<noteq> None)"
| "present d TrioK = (chevening_trio d \<noteq> None)"
| "present d RankedK = (ranked_courses d \<noteq> None)"
| "present d BulletsK = (personal_statement_bullets d \<noteq> None)"
| "present d AlternativesK = (alternatives d \<noteq> None)"
| "present d NotesK = (notes d \<noteq> None)"

definition fragment :: "thrown + string \<Rightarrow> string" where
  "fragment r = (case r of Inl e \<Rightarrow> [] | Inr h \<Rightarrow> h)"

fun block :: "result_document \<Rightarrow> kind \<Rightarrow> string" where
  "block d ProfileK = (case profile d of None \<Rightarrow> [] | Some p \<Rightarrow> renderProfileAnalysis p)"
| "block d TrioK = (case chevening_trio d of None \<Rightarrow> [] | Some t \<Rightarrow> fragment (renderTrio t))"
| "block d RankedK =
     (case ranked_courses d of None \<Rightarrow> [] | Some cs \<Rightarrow> fragment (renderRankedCourses cs))"
| "block d BulletsK =
     (case personal_statement_bullets d of None \<Rightarrow> [] | Some b \<Rightarrow> fragment (renderBullets b))"
| "block d AlternativesK = (case alternatives d of None \<Rightarrow> [] | Some as \<Rightarrow> renderAlternatives as)"
| "block d NotesK = (case notes d of None \<Rightarrow> [] | Some ns \<Rightarrow> renderNotes ns)"

text \<open>
  What \<open>renderResults\<close> leaves as the markup of the results when it appends the given
  blocks one after another to results it has emptied: before each block it has the markup
  read back.  With a runtime that returns markup as it was assigned this is the
  concatenation of the blocks.
\<close>

definition assemble :: "(string \<Rightarrow> string) \<Rightarrow> string list \<Rightarrow> string" where
  "assemble readBack blocks = foldl (\<lambda>markup h. readBack markup @ h) [] blocks"

text \<open>
  The entries of a section: the elements of its lists (\<open>entry_count\<close>), the tag an
  entry fragment opens with (\<open>entry_open\<close>), and for each element the text that stands
  for it in the block (\<open>entry_texts\<close>): a list item with the element's text, or the
  heading of a card with the entry's programme.
\<close>

definition elements_of :: "'a list option \<Rightarrow> 'a list" where
  "elements_of v = (case v of None \<Rightarrow> [] | Some xs \<Rightarrow> xs)"

definition item_text :: "string \<Rightarrow> string" where
  "item_text x = ''<li>'' @ x @ ''</li>''"

fun entry_open :: "kind \<Rightarrow> string" where
  \<open>entry_open ProfileK = ''<li>''\<close>
| \<open>entry_open TrioK = ''<div class="trio-card">''\<close>
| \<open>entry_open RankedK = ''<div class="course-card">''\<close>
| \<open>entry_open BulletsK = ''<li>''\<close>
| \<open>entry_open AlternativesK = ''<div class="course-card">''\<close>
| \<open>entry_open NotesK = ''<li>''\<close>

fun entry_count :: "result_document \<Rightarrow> kind \<Rightarrow> nat" where
  "entry_count d ProfileK =
     (case profile d of
        None \<Rightarrow> 0
      | Some p \<Rightarrow> length (elements_of (strengths p)) + length (elements_of (gaps p)))"
| "entry_count d TrioK = length (elements_of (chevening_trio d))"
| "entry_count d RankedK = length (elements_of (ranked_courses d))"
| "entry_count d BulletsK =
     (case personal_statement_bullets d of
        None \<Rightarrow> 0
      | Some b \<Rightarrow>
          length (elements_of (leadership b)) + length (elements_of (networking b)) +
          length (elements_of (career_plan b)))"
| "entry_count d AlternativesK = length (elements_of (alternatives d))"
| "entry_count d NotesK = length (elements_of (notes d))"

fun entry_texts :: "result_document \<Rightarrow> kind \<Rightarrow> string list" where
  "entry_texts d ProfileK =
     (case profile d of
        None \<Rightarrow> []
      | Some p \<Rightarrow> map item_text (elements_of (strengths p) @ elements_of (gaps p)))"
| "entry_texts d TrioK =
     map (\<lambda>c. ''<h3>'' @ interp (trio_programme c) @ ''</h3>'') (elements_of (chevening_trio d))"
| "entry_texts d RankedK =
     map (\<lambda>c. ''<h3>'' @ interp (rank c) @ ''. '' @ interp (programme c) @ ''</h3>'')
       (elements_of (ranked_courses d))"
| "entry_texts d BulletsK =
     (case personal_statement_bullets d of
        None \<Rightarrow> []
      | Some b \<Rightarrow>
          map item_text
            (elements_of (leadership b) @ elements_of (networking b) @
             elements_of (career_plan b)))"
| "entry_texts d AlternativesK =
     map (\<lambda>a. ''<h3>'' @ interp (alt_programme a) @ ''</h3>'') (elements_of (alternatives d))"
| "entry_texts d NotesK = map item_text (elements_of (notes d))"

text \<open>
  A document is well formed when each section it holds has the sub-fields its generator
  reads without a check: the two lists of the profile, the programme of every trio entry,
  the programme and the rationale list of every course, the three lists of the bullets.
\<close>

definition well_formed :: "result_document \<Rightarrow> bool" where
  "well_formed d =
     ((case profile d of None \<Rightarrow> True | Some p \<Rightarrow> strengths p \<noteq> None \<and> gaps p \<noteq> None) \<and>
      (case chevening_trio d of
         None \<Rightarrow> True
       | Some t \<Rightarrow> list_all (\<lambda>c. trio_programme c \<noteq> None) t) \<and>
      (case ranked_courses d of
         None \<Rightarrow> True
       | Some cs \<Rightarrow> list_all (\<lambda>c. programme c \<noteq> None \<and> chevening_rationale c \<noteq> None) cs) \<and>
      (case personal_statement_bullets d of
         None \<Rightarrow> True
       | Some b \<Rightarrow> leadership b \<noteq> None \<and> networking b \<noteq> None \<and> career_plan b \<noteq> None))"

subsection \<open>Occurrences of a text\<close>

text \<open>
  \<open>starts p xs\<close>: the text \<open>xs\<close> begins with \<open>p\<close>.  \<open>occurrences p xs\<close>: the number
  of positions of \<open>xs\<close> at which \<open>p\<close> starts.  A text is plain when it holds no \<open><\<close>,
  so no markup; an absent field prints as \<^verbatim>\<open>undefined\<close>, which is plain.
\<close>

fun starts :: "'a list \<Rightarrow> 'a list \<Rightarrow> bool" where
  "starts [] ys = True"
| "starts (x # xs) [] = False"
| "starts (x # xs) (y # ys) = (if x = y then starts xs ys else False)"

fun occurrences :: "'a list \<Rightarrow> 'a list \<Rightarrow> nat" where
  "occurrences p [] = (if p = [] then 1 else 0)"
| "occurrences p (y # ys) =
     (if starts p (y # ys) then Suc (occurrences p ys) else occurrences p ys)"

text \<open>
  \<open>overhangs p xs\<close>: the text \<open>xs\<close> ends with a beginning of \<open>p\<close> that is not the
  whole of \<open>p\<close>, so that an occurrence of \<open>p\<close> could start in \<open>xs\<close> and end beyond
  it.
\<close>

fun overhangs :: "'a list \<Rightarrow> 'a list \<Rightarrow> bool" where
  "overhangs p [] = False"
| "overhangs p (y # ys) =
     (if starts (y # ys) p \<and> \<not> starts p (y # ys) then True else overhangs p ys)"

definition plain :: "string \<Rightarrow> bool" where
  "plain s = (CHR ''<'' \<notin> set s)"

definition plain_field :: "string option \<Rightarrow> bool" where
  "plain_field v = (case v of None \<Rightarrow> True | Some s \<Rightarrow> plain s)"

text \<open>
  A programme name contains \<^verbatim>\<open>mba\<close> case-insensitively: somewhere in it an m, a b and
  an a stand in a row, each in either case.
\<close>

fun mentions_mba :: "string \<Rightarrow> bool" where
  "mentions_mba (x # y # z # rest) =
     ((x \<in> {CHR ''m'', CHR ''M''} \<and> y \<in> {CHR ''b'', CHR ''B''} \<and> z \<in> {CHR ''a'', CHR ''A''})
      \<or> mentions_mba (y # z # rest))"
| "mentions_mba _ = False"

text \<open>
  The fields of a trio entry are plain, and the fields of a course other than its programme
  are.
\<close>

definition plain_trio_entry :: "trio_entry \<Rightarrow> bool" where
  "plain_trio_entry c =
     (plain_field (trio_programme c) \<and> plain_field (trio_university c) \<and>
      plain_field (why_this_trio c))"

definition plain_course :: "course \<Rightarrow> bool" where
  "plain_course c =
     (plain_field (university c) \<and>
      (case eligibility_check c of None \<Rightarrow> True | Some e \<Rightarrow> plain_field (reason e)) \<and>
      plain_field (city c) \<and> plain_field (start_cycle c) \<and> plain_field (fee_gbp c) \<and>
      plain_field (score_breakdown c) \<and>
      (case chevening_rationale c of None \<Rightarrow> True | Some rs \<Rightarrow> list_all plain rs) \<and>
      plain_field (url c) \<and> plain_field (rank c) \<and> plain_field (duration_months c))"

text \<open>
  The opening tags of the blocks of a text: every generator opens its block with a
  \<^verbatim>\<open>div\<close> of the class \<^verbatim>\<open>result-category\<close>, the profile analysis with its
  \<^verbatim>\<open>id\<close> before the class.
\<close>

definition block_tags :: "string \<Rightarrow> nat" where
  \<open>block_tags h =
     occurrences ''<div class="result-category'' h +
     occurrences ''<div id="profile-analysis-section" class="result-category'' h\<close>

text \<open>All the texts of a document, the alternatives apart, are plain.\<close>

definition plain_document :: "result_document \<Rightarrow> bool" where
  "plain_document d =
     ((case profile d of
         None \<Rightarrow> True
       | Some p \<Rightarrow>
           list_all plain (elements_of (strengths p)) \<and> list_all plain (elements_of (gaps p))) \<and>
      list_all plain_trio_entry (elements_of (chevening_trio d)) \<and>
      list_all (\<lambda>c. plain_field (programme c) \<and> plain_course c)
        (elements_of (ranked_courses d)) \<and>
      (case personal_statement_bullets d of
         None \<Rightarrow> True
       | Some b \<Rightarrow>
           list_all plain (elements_of (leadership b)) \<and>
           list_all plain (elements_of (networking b)) \<and>
           list_all plain (elements_of (career_plan b))) \<and>
      list_all plain (elements_of (notes d)))"

text \<open>
  The entries of a trio share one university, and there is more than one entry.  An absent
  university is a value like any other.
\<close>

definition shares_university :: "trio_entry list \<Rightarrow> bool" where
  "shares_university trio =
     (length trio > 1 \<and> (\<forall>c \<in> set trio. trio_university c = trio_university (hd trio)))"

subsection \<open>Reading the countdown\<close>

text \<open>
  What a reader of the countdown takes from its text: a number in decimal digits before
  each of \<^verbatim>\<open>d\<close>, \<^verbatim>\<open>h\<close>, \<^verbatim>\<open>m\<close> and \<^verbatim>\<open>s\<close>, the days, hours, minutes and seconds
  left.  \<open>None\<close> is a text that is not of that form.
\<close>

definition is_digit :: "char \<Rightarrow> bool" where
  "is_digit c = (c \<in> set ''0123456789'')"

definition digit_value :: "char \<Rightarrow> nat" where
  "digit_value c = (case map_of (zip ''0123456789'' [0..<10]) c of None \<Rightarrow> 0 | Some v \<Rightarrow> v)"

definition read_nat :: "string \<Rightarrow> nat" where
  "read_nat ds = foldl (\<lambda>n c. 10 * n + digit_value c) 0 ds"

fun expect :: "string \<Rightarrow> string \<Rightarrow> string option" where
  "expect [] xs = Some xs"
| "expect (c # cs) [] = None"
| "expect (c # cs) (x # xs) = (if c = x then expect cs xs else None)"

definition read_field :: "string \<Rightarrow> string \<Rightarrow> (nat \<times> string) option" where
  "read_field unit_text s =
     (if takeWhile is_digit s = [] then None
      else case expect unit_text (dropWhile is_digit s) of
             None \<Rightarrow> None
           | Some rest \<Rightarrow> Some (read_nat (takeWhile is_digit s), rest))"

definition read_countdown :: "string \<Rightarrow> (nat \<times> nat \<times> nat \<times> nat) option" where
  "read_countdown s =
     (case read_field ''d '' s of
        None \<Rightarrow> None
      | Some (days, s1) \<Rightarrow>
     (case read_field ''h '' s1 of
        None \<Rightarrow> None
      | Some (hours, s2) \<Rightarrow>
     (case read_field ''m '' s2 of
        None \<Rightarrow> None
      | Some (minutes, s3) \<Rightarrow>
     (case read_field ''s'' s3 of
        None \<Rightarrow> None
      | Some (seconds, s4) \<Rightarrow>
          if s4 = [] then Some (days, hours, minutes, seconds) else None))))"

subsection \<open>Values for the examples\<close>

definition page0 :: ui where
  "page0 =
     \<lparr>inputHidden = False, loadingHidden = True, errorHidden = True, resultsHTML = [],
      errorHTML = [], submitDisabled = False, loadingText = [], messageInterval = None,
      intervals = [], nextInterval = 0\<rparr>"

definition stale_page :: ui where
  \<open>stale_page = page0\<lparr>resultsHTML := ''<div class="result-category"></div>''\<rparr>\<close>

definition blank_form :: form where
  "blank_form =
     \<lparr>cvFile = None, fields_input = [], locations_input = [], impact_input = [],
      year_input = []\<rparr>"

definition text_file :: js_file where
  "text_file =
     \<lparr>file_name = ''cv.txt'', file_type = ''text/plain'', content = [0x68, 0x69],
      readable = True\<rparr>"

text \<open>A file whose MIME type has a parameter with a comma in its value.\<close>

definition comma_file :: js_file where
  \<open>comma_file = text_file\<lparr>file_type := ''text/plain;title="a,b"''\<rparr>\<close>

definition clock0 :: countdown where
  "clock0 = \<lparr>display = [], live = False\<rparr>"

definition mba_trio_entry :: trio_entry where
  "mba_trio_entry =
     \<lparr>trio_university = Some ''Leeds'', trio_programme = Some ''Executive MBA'',
      why_this_trio = Some ''Leadership track.''\<rparr>"

definition msc_trio_entry :: trio_entry where
  "msc_trio_entry =
     \<lparr>trio_university = Some ''Leeds'', trio_programme = Some ''MSc Finance'',
      why_this_trio = Some ''Quantitative depth.''\<rparr>"

definition msc_course :: course where
  "msc_course =
     \<lparr>rank = Some ''1'', university = Some ''Leeds'', programme = Some ''MSc Finance'',
      city = Some ''Leeds'', url = Some ''https://example.org/msc'',
      start_cycle = Some ''September'', duration_months = Some ''12'',
      fee_gbp = Some ''Verify on university site'', chevening_rationale = Some [''Impact''],
      eligibility_check = Some \<lparr>is_eligible = Some True, reason = Some ''Passes all checks''\<rparr>,
      score_breakdown = Some ''Strong gap fit.''\<rparr>"

definition mba_course :: course where
  "mba_course = msc_course\<lparr>programme := Some ''Global mba (online)''\<rparr>"

text \<open>Entries in which a field other than the programme carries the text of an advisory.\<close>

definition injected_course :: course where
  "injected_course = msc_course\<lparr>university := Some mbaAdvisory\<rparr>"

definition injected_trio :: "trio_entry list" where
  "injected_trio =
     [\<lparr>trio_university = Some ''Leeds'', trio_programme = Some ''MSc Finance'',
       why_this_trio = Some diversifyAdvisory\<rparr>,
      \<lparr>trio_university = Some ''York'', trio_programme = Some ''MSc Economics'',
       why_this_trio = Some ''Policy focus.''\<rparr>,
      \<lparr>trio_university = Some ''Bath'', trio_programme = Some ''MSc Management'',
       why_this_trio = Some ''Sector links.''\<rparr>]"

definition leeds_trio :: "trio_entry list" where
  "leeds_trio =
     [msc_trio_entry, mba_trio_entry,
      \<lparr>trio_university = Some ''Leeds'', trio_programme = Some ''MSc Management'',
       why_this_trio = Some ''Sector links.''\<rparr>]"

definition mixed_trio :: "trio_entry list" where
  "mixed_trio =
     [msc_trio_entry, mba_trio_entry,
      \<lparr>trio_university = Some ''York'', trio_programme = Some ''MSc Management'',
       why_this_trio = Some ''Sector links.''\<rparr>]"

definition full_document :: result_document where
  "full_document =
     \<lparr>profile = Some \<lparr>strengths = Some [''Leadership''], gaps = Some [''Networking'']\<rparr>,
      ranked_courses = Some [msc_course, mba_course],
      chevening_trio = Some leeds_trio,
      personal_statement_bullets =
        Some \<lparr>leadership = Some [''Led a team''], networking = Some [],
              career_plan = Some [''Return home'']\<rparr>,
      alternatives =
        Some [\<lparr>alt_university = Some ''Bath'', alt_programme = Some ''MSc Policy'',
               alt_url = Some ''https://example.org/alt'', why_consider = Some ''Close match.''\<rparr>],
      notes = Some [''Verify fees.'']\<rparr>"

definition five_sections :: result_document where
  "five_sections = full_document\<lparr>alternatives := None\<rparr>"

definition notes_only :: result_document where
  "notes_only =
     \<lparr>profile = None, ranked_courses = None, chevening_trio = None,
      personal_statement_bullets = None, alternatives = None, notes = Some [''Verify fees.'']\<rparr>"

text \<open>
  A document of one section, the notes, whose one note closes the list and the block it
  stands in and opens a block of its own.
\<close>

definition injected_notes :: result_document where
  \<open>injected_notes =
     notes_only\<lparr>notes :=
       Some [''Verify fees.</li></ul></div><div class="result-category"><h2>More</h2><ul><li>Apply early.'']\<rparr>\<close>

section \<open>The controller's operations, field by field\<close>

lemma showError_fields:
  "resultsHTML (showError m s) = []"
  "errorHidden (showError m s) = False"
  "errorHTML (showError m s) \<noteq> []"
  "loadingHidden (showError m s) = loadingHidden s"
  "submitDisabled (showError m s) = submitDisabled s"
  "inputHidden (showError m s) = inputHidden s"
  by (simp_all add: showError_def)

lemma showLoading_off_fields:
  "resultsHTML (showLoading False s) = resultsHTML s"
  "errorHidden (showLoading False s) = errorHidden s"
  "errorHTML (showLoading False s) = errorHTML s"
  "loadingHidden (showLoading False s) = True"
  "submitDisabled (showLoading False s) = False"
  "inputHidden (showLoading False s) = False"
  by (simp_all add: showLoading_def)

lemma showLoading_on_fields:
  "resultsHTML (showLoading True s) = []"
  "errorHidden (showLoading True s) = True"
  "loadingHidden (showLoading True s) = False"
  "submitDisabled (showLoading True s) = True"
  "inputHidden (showLoading True s) = True"
  by (simp_all add: showLoading_def)

text \<open>
  After the \<^verbatim>\<open>catch\<close> and the \<^verbatim>\<open>finally\<close> block the page is the error view: no results,
  the error panel shown and filled, the form back and its button enabled.
\<close>

lemma catch_finally_error_view:
  "resultsHTML (catch_finally e s) = []"
  "errorHidden (catch_finally e s) = False"
  "errorHTML (catch_finally e s) \<noteq> []"
  "submitDisabled (catch_finally e s) = False"
  "loadingHidden (catch_finally e s) = True"
  "inputHidden (catch_finally e s) = False"
  by (simp_all add: catch_finally_def showLoading_off_fields showError_fields)

text \<open>\<open>renderResults\<close> writes the results and nothing else, also when a generator throws.\<close>

lemma append_section_results_only:
  "\<exists>h. outcome_page (append_section rb v r s) = s\<lparr>resultsHTML := h\<rparr>"
proof (cases v)
  case None
  have "s = s\<lparr>resultsHTML := resultsHTML s\<rparr>" by simp
  with None show ?thesis
    unfolding append_section_def by (metis option.simps(4) outcome_page.simps(2))
next
  case (Some x)
  show ?thesis
  proof (cases "r x")
    case (Inl e)
    have "s = s\<lparr>resultsHTML := resultsHTML s\<rparr>" by simp
    with Some Inl show ?thesis
      unfolding append_section_def
      by (metis option.simps(5) sum.simps(5) outcome_page.simps(1))
  next
    case (Inr h)
    with Some show ?thesis by (auto simp: append_section_def)
  qed
qed

lemma and_then_results_only:
  assumes "\<exists>h. outcome_page r = s\<lparr>resultsHTML := h\<rparr>"
      and "\<And>u. \<exists>h. outcome_page (f u) = u\<lparr>resultsHTML := h\<rparr>"
  shows "\<exists>h. outcome_page (and_then r f) = s\<lparr>resultsHTML := h\<rparr>"
proof (cases r)
  case (Inl es)
  with assms(1) show ?thesis by (simp add: and_then_def)
next
  case (Inr u)
  with assms(1) obtain h where u: "u = s\<lparr>resultsHTML := h\<rparr>" by auto
  from assms(2) obtain h' where "outcome_page (f u) = u\<lparr>resultsHTML := h'\<rparr>" by blast
  with u Inr have "outcome_page (and_then r f) = s\<lparr>resultsHTML := h'\<rparr>"
    by (simp add: and_then_def)
  then show ?thesis by blast
qed

lemma renderResults_results_only:
  "\<exists>h. outcome_page (renderResults rb d s) = s\<lparr>resultsHTML := h\<rparr>"
proof -
  have start:
    "\<exists>h. outcome_page (append_section rb (profile d) (\<lambda>p. Inr (renderProfileAnalysis p))
       (s\<lparr>resultsHTML := []\<rparr>)) = s\<lparr>resultsHTML := h\<rparr>"
    using append_section_results_only [of rb "profile d" _ "s\<lparr>resultsHTML := []\<rparr>"] by simp
  show ?thesis
    unfolding renderResults_def
    by (intro and_then_results_only start append_section_results_only)
qed

lemma renderResults_keeps_errorHidden:
  assumes "renderResults rb d s = Inr t"
  shows "errorHidden t = errorHidden s"
proof -
  from renderResults_results_only [of rb d s] assms
  obtain h where "t = s\<lparr>resultsHTML := h\<rparr>" by auto
  then show ?thesis by simp
qed

lemma submit_no_results_beside_error:
  "\<not> results_beside_error (page (submit rb g p frm s))"
proof -
  have on: "errorHidden (showLoading True s)" by (simp add: showLoading_on_fields)
  show ?thesis
    unfolding submit_def results_beside_error_def
    by (auto simp: Let_def showError_fields catch_finally_error_view showLoading_on_fields
          showLoading_off_fields on
        dest: renderResults_keeps_errorHidden
        split: option.splits promise.splits response.splits sum.splits prod.splits)
qed

text \<open>
  A run on an allow-listed file that can be read does return, and it ends either with the
  rendered results or, through the \<^verbatim>\<open>catch\<close> block, in the error view: a rejection by the
  service, a response without text, text that does not parse and a generator that throws
  all go that way.
\<close>

lemma readable_submission_settles:
  assumes "cvFile frm = Some f" "file_type f \<in> set allowedTypes" "readable f"
  shows "returned (submit rb g p frm s) \<and>
         ((\<exists>d u. renderResults rb d (showLoading True s) = Inr u \<and>
                  page (submit rb g p frm s) = showLoading False u) \<or>
          (\<exists>e u. page (submit rb g p frm s) = catch_finally e u))"
proof -
  from assms(3) obtain part where "fileToGenerativePart f = Fulfilled part"
    by (simp add: fileToGenerativePart_def readAsDataURL_def)
  with assms(1,2) show ?thesis
    unfolding submit_def Let_def
    by (auto split: option.splits response.splits sum.splits prod.splits)
qed

lemma controller_step_invariant:
  assumes "controller_step s s'" "\<not> results_beside_error s"
  shows "\<not> results_beside_error s'"
  using assms
proof (cases rule: controller_step.cases)
  case (error_shown m)
  then show ?thesis by (simp add: results_beside_error_def showError_fields)
next
  case (loading_switched b)
  with assms(2) show ?thesis
    by (cases b)
      (simp_all add: results_beside_error_def showLoading_on_fields showLoading_off_fields)
next
  case (submitted readBack generateContent parse frm)
  then show ?thesis by (simp add: submit_no_results_beside_error)
qed

section \<open>The countdown, step by step\<close>

lemma tick_cases:
  assumes "tick (t, s) (t', s')"
  shows "t < t' \<and> s' = (if live s then updateCountdown t' s else s)"
  using assms by (cases rule: tick.cases) auto

lemma countdown_reachable:
  assumes "rtranclp tick (t0, setDeadline t0 s0) (t, s)"
  shows "live s = (t < deadline) \<and>
         display s =
           (if t < deadline then remaining_text (deadline - t) else ''The deadline has passed.'')"
  using assms
proof (induction rule: rtranclp_induct2)
  case refl
  show ?case by (simp add: setDeadline_def updateCountdown_def)
next
  case (step t s t' s')
  from step.hyps(2) have "t < t'" and "s' = (if live s then updateCountdown t' s else s)"
    using tick_cases by blast+
  with step.IH show ?case by (auto simp: updateCountdown_def)
qed

lemma countdown_frozen:
  assumes "rtranclp tick (t, s) (t', s')" "\<not> live s"
  shows "s' = s"
  using assms
proof (induction rule: rtranclp_induct2)
  case refl
  show ?case by simp
next
  case (step u a u' a')
  then show ?case using tick_cases by fastforce
qed

section \<open>The countdown read back\<close>

text \<open>
  Decimal digits read back as the number they print, and the parts of the countdown's text
  as the numbers they were printed from.
\<close>

lemma digit_char: "k < 10 \<Longrightarrow> is_digit (''0123456789'' ! k) \<and> digit_value (''0123456789'' ! k) = k"
proof -
  have "\<forall>k \<in> set [0..<10]. is_digit (''0123456789'' ! k) \<and> digit_value (''0123456789'' ! k) = k"
    by code_simp
  then show "k < 10 \<Longrightarrow> is_digit (''0123456789'' ! k) \<and> digit_value (''0123456789'' ! k) = k"
    by (auto simp del: upt_rec_numeral)
qed

lemma read_nat_snoc: "read_nat (ds @ [c]) = 10 * read_nat ds + digit_value c"
  by (simp add: read_nat_def)

lemma show_nat_read: "read_nat (show_nat n) = n \<and> list_all is_digit (show_nat n) \<and> show_nat n \<noteq> []"
proof (induction n rule: show_nat.induct)
  case (1 n)
  show ?case
  proof (cases "n < 10")
    case True
    with digit_char [of n] show ?thesis
      by (subst (1 2 3) show_nat.simps) (simp add: read_nat_def)
  next
    case False
    have "n mod 10 < 10" by simp
    from digit_char [OF this] "1.IH" False show ?thesis
      by (subst (1 2 3) show_nat.simps) (simp add: read_nat_snoc)
  qed
qed

lemma read_field_shown:
  assumes "\<not> is_digit u"
  shows "read_field (u # us) (show_nat n @ u # us @ rest) = Some (n, rest)"
proof -
  from show_nat_read [of n] have d: "\<forall>x \<in> set (show_nat n). is_digit x" and ne: "show_nat n \<noteq> []"
    and r: "read_nat (show_nat n) = n"
    by (simp_all add: list_all_iff)
  have tw: "takeWhile is_digit (show_nat n @ u # us @ rest) = show_nat n"
    using d assms by (simp add: takeWhile_append2)
  have dw: "dropWhile is_digit (show_nat n @ u # us @ rest) = u # us @ rest"
    using d assms by (simp add: dropWhile_append2)
  have ex: "expect us (us @ rest) = Some rest" for us :: string
    by (induction us) auto
  show ?thesis by (simp add: read_field_def tw dw ne r ex)
qed

lemma read_countdown_shown:
  "read_countdown (show_nat a @ ''d '' @ show_nat b @ ''h '' @ show_nat c @ ''m '' @ show_nat e @ ''s'')
     = Some (a, b, c, e)"
proof -
  have nd: "\<not> is_digit CHR ''d''" "\<not> is_digit CHR ''h''" "\<not> is_digit CHR ''m''" "\<not> is_digit CHR ''s''"
    by (simp_all add: is_digit_def)
  have 1: "read_field ''d '' (show_nat a @ ''d '' @ r) = Some (a, r)" for r
    using read_field_shown [OF nd(1), of "'' ''" a r] by simp
  have 2: "read_field ''h '' (show_nat b @ ''h '' @ r) = Some (b, r)" for r
    using read_field_shown [OF nd(2), of "'' ''" b r] by simp
  have 3: "read_field ''m '' (show_nat c @ ''m '' @ r) = Some (c, r)" for r
    using read_field_shown [OF nd(3), of "'' ''" c r] by simp
  have 4: "read_field ''s'' (show_nat e @ ''s'') = Some (e, [])"
    using read_field_shown [OF nd(4), of "[]" e "[]"] by simp
  show ?thesis
    unfolding read_countdown_def by (simp only: 1 2 3 4 option.case prod.case simp_thms if_True)
qed

text \<open>
  The days, hours, minutes and seconds the code computes from the milliseconds left are
  the digits, in the bases 24, 60 and 60, of the whole seconds left.
\<close>

lemma parts_of_difference:
  fixes diff :: int
  shows "diff div (1000 * 60 * 60 * 24) = diff div 1000 div 86400"
    and "diff mod (1000 * 60 * 60 * 24) div (1000 * 60 * 60) = diff div 1000 mod 86400 div 3600"
    and "diff mod (1000 * 60 * 60) div (1000 * 60) = diff div 1000 mod 3600 div 60"
    and "diff mod (1000 * 60) div 1000 = diff div 1000 mod 60"
proof -
  have A: "x mod (1000 * c) div 1000 = x div 1000 mod c" if "0 < c" for x c :: int
    using that by (simp add: zmod_zmult2_eq)
  have B: "x div (1000 * c) = x div 1000 div c" if "0 < c" for x c :: int
    using that by (simp add: zdiv_zmult2_eq)
  show "diff div (1000 * 60 * 60 * 24) = diff div 1000 div 86400"
    using B [of 86400 diff] by simp
  have "diff mod (1000 * 60 * 60 * 24) div (1000 * 60 * 60) =
      diff mod (1000 * 86400) div 1000 div 3600"
    using B [of 3600 "diff mod (1000 * 86400)"] by simp
  then show "diff mod (1000 * 60 * 60 * 24) div (1000 * 60 * 60) =
      diff div 1000 mod 86400 div 3600"
    using A [of 86400 diff] by simp
  have "diff mod (1000 * 60 * 60) div (1000 * 60) = diff mod (1000 * 3600) div 1000 div 60"
    using B [of 60 "diff mod (1000 * 3600)"] by simp
  then show "diff mod (1000 * 60 * 60) div (1000 * 60) = diff div 1000 mod 3600 div 60"
    using A [of 3600 diff] by simp
  show "diff mod (1000 * 60) div 1000 = diff div 1000 mod 60"
    using A [of 60 diff] by simp
qed

lemma seconds_of_parts:
  fixes q :: int
  shows "((q div 86400 * 24 + q mod 86400 div 3600) * 60 + q mod 3600 div 60) * 60 + q mod 60 = q"
proof -
  define a r1 b r2 c e where "a = q div 86400" and "r1 = q mod 86400" and "b = r1 div 3600"
    and "r2 = q mod 3600" and "c = r2 div 60" and "e = q mod 60"
  have m1: "r1 mod 3600 = r2" by (simp add: r1_def r2_def mod_mod_cancel)
  have m2: "r2 mod 60 = e" by (simp add: r2_def e_def mod_mod_cancel)
  have e1: "q = 86400 * a + r1" by (simp add: a_def r1_def)
  have e2: "r1 = 3600 * b + r2" unfolding b_def m1 [symmetric] by simp
  have e3: "r2 = 60 * c + e" unfolding c_def m2 [symmetric] by simp
  have "((a * 24 + b) * 60 + c) * 60 + e = q"
    by (simp add: e1 e2 e3 algebra_simps)
  then show ?thesis by (simp add: a_def r1_def b_def r2_def c_def e_def)
qed

lemma quotient_bound:
  fixes x :: int
  assumes "x < c * n" "0 < c"
  shows "x div c < n"
proof -
  define y r where "y = x div c" and "r = x mod c"
  have "x = c * y + r" by (simp add: y_def r_def)
  moreover have "0 \<le> r" using assms(2) by (simp add: r_def)
  ultimately have "c * y < c * n" using assms(1) by linarith
  with assms(2) have "y < n" by (simp add: mult_less_cancel_left_pos)
  then show ?thesis by (simp add: y_def)
qed

lemma parts_in_range:
  fixes q :: int
  assumes "0 \<le> q"
  shows "0 \<le> q div 86400" and "0 \<le> q mod 86400 div 3600" and "q mod 86400 div 3600 < 24"
    and "0 \<le> q mod 3600 div 60" and "q mod 3600 div 60 < 60" and "0 \<le> q mod 60" and "q mod 60 < 60"
proof -
  show "0 \<le> q div 86400" using assms by (simp add: pos_imp_zdiv_nonneg_iff)
  show "0 \<le> q mod 86400 div 3600" by (simp add: pos_imp_zdiv_nonneg_iff)
  have "q mod 86400 < 3600 * 24" by simp
  then show "q mod 86400 div 3600 < 24" by (rule quotient_bound) simp
  show "0 \<le> q mod 3600 div 60" by (simp add: pos_imp_zdiv_nonneg_iff)
  have "q mod 3600 < 60 * 60" by simp
  then show "q mod 3600 div 60 < 60" by (rule quotient_bound) simp
  show "0 \<le> q mod 60" by simp
  show "q mod 60 < 60" by simp
qed

text \<open>
  The text of the time left reads as the days, hours, minutes and seconds that make up the
  whole seconds left.
\<close>

lemma remaining_text_read:
  assumes "0 < diff"
  shows "\<exists>days hours minutes seconds.
           read_countdown (remaining_text diff) = Some (days, hours, minutes, seconds) \<and>
           hours < 24 \<and> minutes < 60 \<and> seconds < 60 \<and>
           int (((days * 24 + hours) * 60 + minutes) * 60 + seconds) = diff div 1000"
proof -
  define q where "q = diff div 1000"
  define D H M S where "D = q div 86400" and "H = q mod 86400 div 3600"
    and "M = q mod 3600 div 60" and "S = q mod 60"
  have q0: "0 \<le> q" using assms by (simp add: q_def pos_imp_zdiv_nonneg_iff)
  note P = parts_of_difference [of diff, folded q_def, folded D_def H_def M_def S_def]
  note R = parts_in_range [OF q0, folded D_def H_def M_def S_def]
  have total: "((D * 24 + H) * 60 + M) * 60 + S = q"
    unfolding D_def H_def M_def S_def by (rule seconds_of_parts)
  have sh: "show_int D = show_nat (nat D)" "show_int H = show_nat (nat H)"
    "show_int M = show_nat (nat M)" "show_int S = show_nat (nat S)"
    using R by (simp_all add: show_int_def)
  have text_eq: "remaining_text diff =
      show_nat (nat D) @ ''d '' @ show_nat (nat H) @ ''h '' @ show_nat (nat M) @ ''m '' @
      show_nat (nat S) @ ''s''"
    unfolding remaining_text_def Let_def P sh ..
  have rd: "read_countdown (remaining_text diff) = Some (nat D, nat H, nat M, nat S)"
    unfolding text_eq by (rule read_countdown_shown)
  have rng: "nat H < 24" "nat M < 60" "nat S < 60"
    using R by linarith+
  have "int (((nat D * 24 + nat H) * 60 + nat M) * 60 + nat S) = q"
    using R total by simp
  with rd rng show ?thesis unfolding q_def by blast
qed

lemma passed_text_unread: "read_countdown ''The deadline has passed.'' = None"
  by (simp add: read_countdown_def read_field_def is_digit_def)

lemma remaining_text_changes:
  assumes "0 < a" "0 < b" "a div 1000 \<noteq> b div (1000::int)"
  shows "remaining_text a \<noteq> remaining_text b"
proof
  assume eq: "remaining_text a = remaining_text b"
  from remaining_text_read [OF assms(1)] obtain d h m s where
    A: "read_countdown (remaining_text a) = Some (d, h, m, s)"
       "int (((d * 24 + h) * 60 + m) * 60 + s) = a div 1000" by blast
  from remaining_text_read [OF assms(2)] obtain d' h' m' s' where
    B: "read_countdown (remaining_text b) = Some (d', h', m', s')"
       "int (((d' * 24 + h') * 60 + m') * 60 + s') = b div 1000" by blast
  from A(1) B(1) eq have "d = d'" "h = h'" "m = m'" "s = s'" by simp_all
  with A(2) B(2) assms(3) show False by simp
qed

lemma a_second_later:
  fixes t t' :: int
  assumes "t + 1000 \<le> t'"
  shows "(deadline - t') div 1000 \<noteq> (deadline - t) div 1000"
proof -
  have "(deadline - t') div 1000 \<le> (deadline - t - 1000) div 1000"
    using assms by (intro zdiv_mono1) simp_all
  also have "\<dots> = (deadline - t) div 1000 - 1"
    by (simp add: div_diff)
  finally show ?thesis by simp
qed

section \<open>Base64 and the data URL\<close>

text \<open>
  Every symbol of the alphabet decodes to its index, and none is the padding sign or a
  comma (checked on the 64 symbols).
\<close>

lemma base64_symbols:
  "\<forall>i \<in> set [0..<64].
     base64_value (base64_alphabet ! i) = Some i \<and>
     base64_alphabet ! i \<noteq> CHR ''='' \<and> base64_alphabet ! i \<noteq> CHR '',''"
  by code_simp

lemma base64_symbol:
  assumes "i < 64"
  shows "base64_value (base64_alphabet ! i) = Some i"
    and "base64_alphabet ! i \<noteq> CHR ''=''"
    and "base64_alphabet ! i \<noteq> CHR '',''"
    and "CHR '','' \<noteq> base64_alphabet ! i"
  using assms base64_symbols by (auto simp del: upt_rec_numeral)

text \<open>The arithmetic of six-bit symbols and eight-bit bytes.\<close>

lemma div16_bound: "(b::nat) < 256 \<Longrightarrow> b div 16 < 16"
  by (simp add: less_mult_imp_div_less)

lemma div64_bound: "(c::nat) < 256 \<Longrightarrow> c div 64 < 4"
  by (simp add: less_mult_imp_div_less)

lemma div4_bound: "(a::nat) < 256 \<Longrightarrow> a div 4 < 64"
  by (simp add: less_mult_imp_div_less)

lemma second_symbol_bound: "(a::nat) mod 4 * 16 + b div 16 < 64" if "b < 256"
proof -
  have "a mod 4 < 4" by simp
  then have "a mod 4 \<le> 3" by linarith
  then have "a mod 4 * 16 \<le> 48" by linarith
  with div16_bound [OF that] show ?thesis by linarith
qed

lemma second_symbol_padded: "(a::nat) mod 4 * 16 < 64"
proof -
  have "a mod 4 < 4" by simp
  then show ?thesis by linarith
qed

lemma third_symbol_bound: "(b::nat) mod 16 * 4 + c div 64 < 64" if "c < 256"
proof -
  have "b mod 16 < 16" by simp
  then have "b mod 16 * 4 \<le> 60" by linarith
  with div64_bound [OF that] show ?thesis by linarith
qed

lemma third_symbol_padded: "(b::nat) mod 16 * 4 < 64"
proof -
  have "b mod 16 < 16" by simp
  then show ?thesis by linarith
qed

lemma byte_bound: "unat (a :: 8 word) < 256"
  using unsigned_less [of a] by simp

lemma base64_round_trip: "base64_decode (base64 bs) = Some bs"
proof (induction bs rule: base64.induct)
  case 1
  show ?case by simp
next
  case (2 a)
  note A = byte_bound [of a]
  show ?case
    by (simp add: base64_symbol div4_bound [OF A] second_symbol_padded del: of_nat_add of_nat_mult)
next
  case (3 a b)
  note A = byte_bound [of a] and B = byte_bound [of b]
  show ?case
    by (simp add: base64_symbol div4_bound [OF A] second_symbol_bound [OF B] third_symbol_padded div16_bound [OF B]
          del: of_nat_add of_nat_mult)
next
  case (4 a b c rest)
  note A = byte_bound [of a] and B = byte_bound [of b] and C = byte_bound [of c]
  have c64: "unat c mod 64 < 64" by simp
  show ?case
    using "4.IH"
    by (simp add: base64_symbol div4_bound [OF A] second_symbol_bound [OF B] third_symbol_bound [OF C] c64 div16_bound [OF B] div64_bound [OF C]
          del: of_nat_add of_nat_mult)
qed

lemma base64_no_comma: "CHR '','' \<notin> set (base64 bs)"
proof (induction bs rule: base64.induct)
  case 1
  show ?case by simp
next
  case (2 a)
  note A = byte_bound [of a]
  show ?case by (simp add: base64_symbol div4_bound [OF A] second_symbol_padded)
next
  case (3 a b)
  note A = byte_bound [of a] and B = byte_bound [of b]
  show ?case by (simp add: base64_symbol div4_bound [OF A] second_symbol_bound [OF B] third_symbol_padded)
next
  case (4 a b c rest)
  note A = byte_bound [of a] and B = byte_bound [of b] and C = byte_bound [of c]
  have c64: "unat c mod 64 < 64" by simp
  show ?case using "4.IH" by (simp add: base64_symbol div4_bound [OF A] second_symbol_bound [OF B] third_symbol_bound [OF C] c64)
qed

lemma split_str_plain: "sep \<notin> set s \<Longrightarrow> split_str sep s = [s]"
  by (induction s) auto

lemma split_str_first:
  "sep \<notin> set a \<Longrightarrow> split_str sep (a @ sep # b) = a # split_str sep b"
  by (induction a) auto

section \<open>Rendering a well-formed document\<close>

lemma map_throwing_total:
  assumes "list_all (\<lambda>x. \<exists>h. f x = Inr h) xs"
  shows "map_throwing f xs = Inr (map (\<lambda>x. fragment (f x)) xs)"
  using assms by (induction xs) (auto simp: fragment_def)

lemma trioCard_total: "trio_programme c \<noteq> None \<Longrightarrow> \<exists>h. trioCard c = Inr h"
  by (auto simp: trioCard_def Let_def)

lemma courseCard_total:
  "programme c \<noteq> None \<Longrightarrow> chevening_rationale c \<noteq> None \<Longrightarrow> \<exists>h. courseCard c = Inr h"
  by (auto simp: courseCard_def Let_def)

lemma trio_cards_total:
  assumes "list_all (\<lambda>c. trio_programme c \<noteq> None) t"
  shows "map_throwing trioCard t = Inr (map (\<lambda>c. fragment (trioCard c)) t)"
  by (rule map_throwing_total) (use assms in \<open>auto simp: list_all_iff intro: trioCard_total\<close>)

lemma course_cards_total:
  assumes "list_all (\<lambda>c. programme c \<noteq> None \<and> chevening_rationale c \<noteq> None) cs"
  shows "map_throwing courseCard cs = Inr (map (\<lambda>c. fragment (courseCard c)) cs)"
  by (rule map_throwing_total) (use assms in \<open>auto simp: list_all_iff intro: courseCard_total\<close>)

lemma well_formedD:
  assumes "well_formed d"
  shows "\<And>p. profile d = Some p \<Longrightarrow> \<exists>ss gs. strengths p = Some ss \<and> gaps p = Some gs"
    and "\<And>t. chevening_trio d = Some t \<Longrightarrow> list_all (\<lambda>c. trio_programme c \<noteq> None) t"
    and "\<And>cs. ranked_courses d = Some cs \<Longrightarrow>
           list_all (\<lambda>c. programme c \<noteq> None \<and> chevening_rationale c \<noteq> None) cs"
    and "\<And>b. personal_statement_bullets d = Some b \<Longrightarrow>
           \<exists>ls ns cs. leadership b = Some ls \<and> networking b = Some ns \<and> career_plan b = Some cs"
  using assms by (auto simp: well_formed_def)

text \<open>
  One \<^verbatim>\<open>+=\<close> of \<open>renderResults\<close>, for a generator that does not throw: a section that
  is present has the markup read back and its block put after it; a section that is absent
  leaves the markup as it is, unread.
\<close>

lemma append_section_total:
  assumes "\<And>x. v = Some x \<Longrightarrow> render x = Inr (h x)"
  shows "append_section rb v render s =
           Inr (s\<lparr>resultsHTML :=
                  (case v of None \<Rightarrow> resultsHTML s | Some x \<Rightarrow> rb (resultsHTML s) @ h x)\<rparr>)"
proof (cases v)
  case None
  then show ?thesis by (simp add: append_section_def)
next
  case (Some x)
  with assms [OF Some] show ?thesis by (simp add: append_section_def)
qed

lemma foldl_filter_cond:
  "foldl (\<lambda>m k. if P k then g m k else m) a ks = foldl g a (filter P ks)"
  by (induction ks arbitrary: a) auto

lemma assemble_present:
  "assemble rb (map f (filter P ks)) = foldl (\<lambda>m k. if P k then rb m @ f k else m) [] ks"
  by (simp add: assemble_def foldl_map foldl_filter_cond)

lemma assemble_identity: "assemble (\<lambda>m. m) blocks = concat blocks"
proof -
  have "foldl (\<lambda>m h. m @ h) a blocks = a @ concat blocks" for a :: string
    by (induction blocks arbitrary: a) auto
  from this [of "[]"] show ?thesis by (simp add: assemble_def)
qed

lemma renderResults_well_formed:
  assumes "well_formed d"
  shows "renderResults rb d s =
           Inr (s\<lparr>resultsHTML := assemble rb (map (block d) (filter (present d) fixed_order))\<rparr>)"
proof -
  define upd where "upd k m = (if present d k then rb m @ block d k else m)" for k m
  have t1: "\<And>x. chevening_trio d = Some x \<Longrightarrow> renderTrio x = Inr (fragment (renderTrio x))"
    using well_formedD(2) [OF assms]
    by (simp add: renderTrio_def Let_def trio_cards_total fragment_def)
  have t2: "\<And>x. ranked_courses d = Some x \<Longrightarrow>
      renderRankedCourses x = Inr (fragment (renderRankedCourses x))"
    using well_formedD(3) [OF assms]
    by (simp add: renderRankedCourses_def course_cards_total fragment_def)
  have t3: "\<And>x. personal_statement_bullets d = Some x \<Longrightarrow>
      renderBullets x = Inr (fragment (renderBullets x))"
    using well_formedD(4) [OF assms] by (auto simp: renderBullets_def fragment_def)
  have a1: "\<And>u. append_section rb (profile d) (\<lambda>p. Inr (renderProfileAnalysis p)) u =
      Inr (u\<lparr>resultsHTML := upd ProfileK (resultsHTML u)\<rparr>)"
    unfolding upd_def
    by (subst append_section_total [where h = renderProfileAnalysis])
      (auto split: option.splits)
  have a2: "\<And>u. append_section rb (chevening_trio d) renderTrio u =
      Inr (u\<lparr>resultsHTML := upd TrioK (resultsHTML u)\<rparr>)"
    unfolding upd_def
    by (subst append_section_total [where h = "\<lambda>x. fragment (renderTrio x)"])
      (use t1 in \<open>auto split: option.splits\<close>)
  have a3: "\<And>u. append_section rb (ranked_courses d) renderRankedCourses u =
      Inr (u\<lparr>resultsHTML := upd RankedK (resultsHTML u)\<rparr>)"
    unfolding upd_def
    by (subst append_section_total [where h = "\<lambda>x. fragment (renderRankedCourses x)"])
      (use t2 in \<open>auto split: option.splits\<close>)
  have a4: "\<And>u. append_section rb (personal_statement_bullets d) renderBullets u =
      Inr (u\<lparr>resultsHTML := upd BulletsK (resultsHTML u)\<rparr>)"
    unfolding upd_def
    by (subst append_section_total [where h = "\<lambda>x. fragment (renderBullets x)"])
      (use t3 in \<open>auto split: option.splits\<close>)
  have a5: "\<And>u. append_section rb (alternatives d) (\<lambda>a. Inr (renderAlternatives a)) u =
      Inr (u\<lparr>resultsHTML := upd AlternativesK (resultsHTML u)\<rparr>)"
    unfolding upd_def
    by (subst append_section_total [where h = renderAlternatives])
      (auto split: option.splits)
  have a6: "\<And>u. append_section rb (notes d) (\<lambda>n. Inr (renderNotes n)) u =
      Inr (u\<lparr>resultsHTML := upd NotesK (resultsHTML u)\<rparr>)"
    unfolding upd_def
    by (subst append_section_total [where h = renderNotes])
      (auto split: option.splits)
  have "renderResults rb d s =
      Inr (s\<lparr>resultsHTML := foldl (\<lambda>m k. upd k m) [] fixed_order\<rparr>)"
    by (simp add: renderResults_def and_then_def a1 a2 a3 a4 a5 a6 fixed_order_def)
  then show ?thesis by (simp only: assemble_present upd_def)
qed

section \<open>Where a text can occur\<close>

text \<open>
  Counting the occurrences of a fixed text in a rendering goes through the rendering from
  left to right.  In template text the count is computed.  A field that is plain adds no
  occurrence of a text that starts with \<open><\<close> (\<open>occurrences_field\<close>), and a field that
  does not hold the first characters of the text adds none either, as long as the template
  goes on with a character that the text does not have there (\<open>occurrences_straddle\<close>).
\<close>

lemma sublist_skip: "sublist xs ys \<Longrightarrow> sublist xs (zs @ ys)"
  by (auto simp: sublist_def) (metis append.assoc)

lemma sublist_skip_simp: "sublist xs ys \<Longrightarrow> sublist xs (zs @ ys) = True"
  by (simp add: sublist_skip)

lemmas sublist_in_text = sublist_Cons_right sublist_skip_simp

lemma starts_prefix: "starts p xs = prefix p xs"
  by (induction p xs rule: starts.induct) auto

lemma sublist_occurrences: "sublist p xs \<longleftrightarrow> 0 < occurrences p xs"
  by (induction xs) (auto simp: starts_prefix sublist_Cons_right)

lemma occurrences_field:
  "c \<notin> set f \<Longrightarrow> occurrences (c # p) (f @ r) = occurrences (c # p) r"
  by (induction f) auto

lemma occurrences_straddle:
  assumes "\<not> sublist m f" "prefix m p" "y \<notin> set (tl m)"
  shows "occurrences p (f @ y # r) = occurrences p (y # r)"
  using assms(1)
proof (induction f)
  case Nil
  then show ?case by simp
next
  case (Cons x f)
  have nf: "\<not> sublist m f" using Cons.prems by (auto simp: sublist_Cons_right)
  have "\<not> prefix p (x # f @ y # r)"
  proof
    assume "prefix p (x # f @ y # r)"
    with assms(2) have "prefix m ((x # f) @ y # r)" by simp
    then have "prefix m (x # f) \<or> (\<exists>us. m = (x # f) @ us \<and> prefix us (y # r))"
      by (simp only: prefix_append)
    then show False
    proof
      assume "prefix m (x # f)"
      then have "sublist m (x # f)" by (rule prefix_imp_sublist)
      with Cons.prems show False by simp
    next
      assume "\<exists>us. m = (x # f) @ us \<and> prefix us (y # r)"
      then obtain us where us: "m = (x # f) @ us" "prefix us (y # r)" by blast
      show False
      proof (cases us)
        case Nil
        with us(1) Cons.prems show False by simp
      next
        case (Cons u us')
        with us(2) have "u = y" by simp
        with us(1) Cons have "y \<in> set (tl m)" by simp
        with assms(3) show False by simp
      qed
    qed
  qed
  then show ?case using Cons.IH [OF nf] by (simp add: starts_prefix)
qed

lemma toLowerCase_sublist: "sublist xs ys \<Longrightarrow> sublist (toLowerCase xs) (toLowerCase ys)"
proof -
  assume "sublist xs ys"
  then obtain ps ss where "ys = ps @ xs @ ss" by (auto simp: sublist_def)
  then have "toLowerCase ys = toLowerCase ps @ toLowerCase xs @ toLowerCase ss"
    by (simp add: toLowerCase_def)
  then show ?thesis by (metis sublist_appendI)
qed

lemma lower_letter:
  "lower c = CHR ''m'' \<longleftrightarrow> c \<in> {CHR ''m'', CHR ''M''}"
  "lower c = CHR ''b'' \<longleftrightarrow> c \<in> {CHR ''b'', CHR ''B''}"
  "lower c = CHR ''a'' \<longleftrightarrow> c \<in> {CHR ''a'', CHR ''A''}"
  by (auto simp add: lower_def split: if_splits)

lemma isMBA_mentions_mba: "includes_str (toLowerCase p) ''mba'' \<longleftrightarrow> mentions_mba p"
proof (induction p rule: mentions_mba.induct)
  case (1 x y z rest)
  have "sublist ''mba'' (toLowerCase (x # y # z # rest)) \<longleftrightarrow>
        prefix ''mba'' (toLowerCase (x # y # z # rest)) \<or> sublist ''mba'' (toLowerCase (y # z # rest))"
    by (simp add: toLowerCase_def sublist_Cons_right)
  also have "prefix ''mba'' (toLowerCase (x # y # z # rest)) \<longleftrightarrow>
        x \<in> {CHR ''m'', CHR ''M''} \<and> y \<in> {CHR ''b'', CHR ''B''} \<and> z \<in> {CHR ''a'', CHR ''A''}"
    by (simp add: toLowerCase_def lower_letter eq_commute [of "CHR ''m''"]
          eq_commute [of "CHR ''b''"] eq_commute [of "CHR ''a''"])
  finally show ?case using "1.IH" by (simp add: includes_str_def)
qed (simp_all add: includes_str_def toLowerCase_def sublist_code)

lemma interp_plain [simp]: "plain_field v \<Longrightarrow> CHR ''<'' \<notin> set (interp v)"
  by (cases v) (simp_all add: plain_field_def plain_def interp_def)

lemma show_nat_digits: "set (show_nat n) \<subseteq> set ''0123456789''"
proof (induction n rule: show_nat.induct)
  case (1 n)
  have d: "''0123456789'' ! k \<in> set ''0123456789''" if "k < 10" for k
    using that by (intro nth_mem) simp
  show ?case
  proof (cases "n < 10")
    case True
    with d [of n] show ?thesis by (subst show_nat.simps) simp
  next
    case False
    have "n mod 10 < 10" by simp
    from d [OF this] "1.IH" False show ?thesis by (subst show_nat.simps) auto
  qed
qed

lemma mba_marker:
  assumes "\<not> mentions_mba p"
  shows "\<not> sublist ''<p class=\"mba'' p"
proof
  assume "sublist ''<p class=\"mba'' p"
  then have "sublist (toLowerCase ''<p class=\"mba'') (toLowerCase p)"
    by (rule toLowerCase_sublist)
  moreover have "sublist ''mba'' (toLowerCase ''<p class=\"mba'')"
    by (simp add: toLowerCase_def lower_def sublist_code)
  ultimately have "sublist ''mba'' (toLowerCase p)"
    using sublist_order.order.trans by blast
  with assms show False by (simp add: isMBA_mentions_mba [symmetric] includes_str_def)
qed

lemma trioCard_without_advisory:
  assumes "trio_programme c = Some p" "\<not> mentions_mba p"
    "plain_field (trio_university c)" "plain_field (why_this_trio c)"
  shows "\<exists>h. trioCard c = Inr h \<and> occurrences mbaAdvisory h = 0"
proof -
  note [simp] = occurrences_straddle [where m = "''<p class=\"mba''" and f = p, OF mba_marker [OF assms(2)]]
  show ?thesis
    using assms(3,4)
    by (simp add: trioCard_def assms(1,2) isMBA_mentions_mba mbaAdvisory_def occurrences_field)
qed

text \<open>The parts of a course card add no occurrence of the fee-cap advisory.\<close>

lemma badge_free:
  "P = mbaAdvisory \<Longrightarrow> occurrences P (eligibilityBadge e @ r) = occurrences P r"
  by (simp add: eligibilityBadge_def mbaAdvisory_def split: option.splits)

lemma reason_free:
  "P = mbaAdvisory \<Longrightarrow> (case e of None \<Rightarrow> True | Some x \<Rightarrow> plain_field (reason x)) \<Longrightarrow>
     occurrences P (eligibilityReason e @ r) = occurrences P r"
  by (simp add: eligibilityReason_def mbaAdvisory_def occurrences_field split: option.splits)

lemma fee_free:
  "P = mbaAdvisory \<Longrightarrow> plain_field fee \<Longrightarrow>
     occurrences P (feeDisplay fee @ r) = occurrences P r"
  by (cases fee)
    (simp_all add: feeDisplay_def truthy_def mbaAdvisory_def occurrences_field interp_def
       plain_field_def plain_def)

lemma score_free:
  "P = mbaAdvisory \<Longrightarrow> plain_field sb \<Longrightarrow>
     occurrences P (scoreDisclosure sb @ r) = occurrences P r"
  by (simp add: scoreDisclosure_def mbaAdvisory_def occurrences_field)

lemma items_free:
  "P = mbaAdvisory \<Longrightarrow> list_all plain rs \<Longrightarrow>
     occurrences P (join (map li rs) @ r) = occurrences P r"
  by (induction rs) (simp_all add: join_def li_def mbaAdvisory_def occurrences_field plain_def)



lemma courseCard_without_advisory:
  assumes "programme c = Some p" "chevening_rationale c = Some rs" "\<not> mentions_mba p"
    "plain_course c"
  shows "\<exists>h. courseCard c = Inr h \<and> occurrences mbaAdvisory h = 0"
proof -
  note [simp] = occurrences_straddle [where m = "''<p class=\"mba''" and f = p, OF mba_marker [OF assms(3)]]
  from assms(4) have pl:
    "plain_field (university c)"
    "case eligibility_check c of None \<Rightarrow> True | Some e \<Rightarrow> plain_field (reason e)"
    "plain_field (city c)" "plain_field (start_cycle c)" "plain_field (fee_gbp c)"
    "plain_field (score_breakdown c)" "list_all plain rs" "plain_field (url c)"
    "plain_field (rank c)" "plain_field (duration_months c)"
    by (simp_all add: plain_course_def assms(2))
  show ?thesis
    using pl
    by (simp add: courseCard_def assms(1,2,3) isMBA_mentions_mba mbaAdvisory_def occurrences_field
          badge_free reason_free fee_free score_free items_free)
qed

lemma trioCard_with_advisory:
  assumes "trio_programme t = Some p" "mentions_mba p"
  shows "\<exists>h. trioCard t = Inr h \<and> sublist mbaAdvisory h"
  by (simp add: trioCard_def assms isMBA_mentions_mba sublist_in_text)

lemma courseCard_with_advisory:
  assumes "programme c = Some q" "chevening_rationale c = Some rs" "mentions_mba q"
  shows "\<exists>h. courseCard c = Inr h \<and> sublist mbaAdvisory h"
  by (simp add: courseCard_def assms isMBA_mentions_mba sublist_in_text)

text \<open>A trio card of plain fields adds no occurrence of the diversification advisory.\<close>

lemma trioCard_free:
  assumes "P = diversifyAdvisory" "trio_programme c \<noteq> None" "plain_trio_entry c"
  shows "\<exists>h. trioCard c = Inr h \<and> (\<forall>r. occurrences P (h @ r) = occurrences P r)"
proof -
  from assms(2) obtain p where p: "trio_programme c = Some p" by auto
  with assms(3) have pl: "CHR ''<'' \<notin> set p" "plain_field (trio_university c)"
      "plain_field (why_this_trio c)"
    by (simp_all add: plain_trio_entry_def plain_field_def plain_def)
  show ?thesis
    using pl
    by (simp add: trioCard_def p assms(1) diversifyAdvisory_def mbaAdvisory_def occurrences_field)
qed

lemma trio_cards_free:
  assumes "P = diversifyAdvisory"
    "list_all (\<lambda>c. trio_programme c \<noteq> None \<and> plain_trio_entry c) trio"
  shows "\<exists>cards. map_throwing trioCard trio = Inr cards \<and>
           (\<forall>r. occurrences P (join cards @ r) = occurrences P r)"
  using assms(2)
proof (induction trio)
  case Nil
  show ?case by (simp add: join_def)
next
  case (Cons c trio)
  then obtain cards where cards: "map_throwing trioCard trio = Inr cards"
      "\<And>r. occurrences P (join cards @ r) = occurrences P r"
    by auto
  from Cons.prems trioCard_free [OF assms(1), of c] obtain h where h: "trioCard c = Inr h"
      "\<And>r. occurrences P (h @ r) = occurrences P r"
    by auto
  have "occurrences P (join (h # cards) @ r) = occurrences P r" for r
    using h(2) [of "join cards @ r"] cards(2) [of r] by (simp add: join_def)
  with h(1) cards(1) show ?case by simp
qed

lemma renderTrio_occurrences:
  assumes "list_all (\<lambda>c. trio_programme c \<noteq> None \<and> plain_trio_entry c) trio"
  shows "\<exists>h. renderTrio trio = Inr h \<and>
           occurrences diversifyAdvisory h =
             (if length (remdups (map trio_university trio)) = 1 \<and> length trio > 1 then 1 else 0)"
proof -
  from trio_cards_free [OF refl assms] obtain cards
    where cards: "map_throwing trioCard trio = Inr cards"
      and free: "\<And>P r. P = diversifyAdvisory \<Longrightarrow>
                   occurrences P (join cards @ r) = occurrences P r"
    by auto
  show ?thesis
    by (simp add: renderTrio_def Let_def cards diversifyAdvisory_def free)
qed

lemma remdups_single:
  "length (remdups xs) = 1 \<longleftrightarrow> xs \<noteq> [] \<and> (\<forall>x \<in> set xs. x = hd xs)"
proof -
  have "length (remdups xs) = 1 \<longleftrightarrow> card (set xs) = 1"
    by (simp add: length_remdups_card_conv)
  also have "\<dots> \<longleftrightarrow> (\<exists>a. set xs = {a})" by (simp add: card_1_singleton_iff)
  also have "\<dots> \<longleftrightarrow> xs \<noteq> [] \<and> (\<forall>x \<in> set xs. x = hd xs)"
  proof
    assume "\<exists>a. set xs = {a}"
    then obtain a where a: "set xs = {a}" by blast
    then have ne: "xs \<noteq> []" by auto
    then have "hd xs \<in> set xs" by simp
    with a show "xs \<noteq> [] \<and> (\<forall>x \<in> set xs. x = hd xs)" using ne by auto
  next
    assume r: "xs \<noteq> [] \<and> (\<forall>x \<in> set xs. x = hd xs)"
    then have "hd xs \<in> set xs" by simp
    with r have "set xs = {hd xs}" by auto
    then show "\<exists>a. set xs = {a}" by blast
  qed
  finally show ?thesis .
qed

lemma shares_university_eq:
  "shares_university trio \<longleftrightarrow>
     length (remdups (map trio_university trio)) = 1 \<and> length trio > 1"
proof (cases trio)
  case Nil
  then show ?thesis by (simp add: shares_university_def)
next
  case (Cons c cs)
  have "length (remdups (map trio_university trio)) = 1 \<longleftrightarrow>
      map trio_university trio \<noteq> [] \<and>
      (\<forall>x \<in> set (map trio_university trio). x = hd (map trio_university trio))"
    by (rule remdups_single)
  also have "\<dots> \<longleftrightarrow> (\<forall>a \<in> set trio. trio_university a = trio_university (hd trio))"
    using Cons by auto
  finally show ?thesis by (auto simp: shares_university_def)
qed

section \<open>Opening tags in a rendering\<close>

text \<open>
  A piece of template text that does not end in the beginning of a tag adds its own
  occurrences of the tag and no other.
\<close>

lemma occurrences_chunk:
  "\<not> overhangs (c # p) xs \<Longrightarrow>
     occurrences (c # p) (xs @ r) = occurrences (c # p) xs + occurrences (c # p) r"
proof (induction xs)
  case Nil
  show ?case by simp
next
  case (Cons y ys)
  from Cons.prems have no: "prefix (y # ys) (c # p) \<longrightarrow> prefix (c # p) (y # ys)"
    and rest: "\<not> overhangs (c # p) ys"
    by (simp_all add: starts_prefix split: if_splits)
  have "prefix (c # p) ((y # ys) @ r) \<longleftrightarrow> prefix (c # p) (y # ys)"
  proof
    assume "prefix (c # p) ((y # ys) @ r)"
    then have "prefix (c # p) (y # ys) \<or> (\<exists>us. c # p = (y # ys) @ us \<and> prefix us r)"
      by (simp only: prefix_append)
    with no show "prefix (c # p) (y # ys)" by auto
  next
    assume "prefix (c # p) (y # ys)"
    then show "prefix (c # p) ((y # ys) @ r)" by (rule prefix_prefix)
  qed
  with Cons.IH [OF rest] show ?case by (auto simp add: starts_prefix)
qed

lemma cards_count:
  assumes "list_all (\<lambda>c. \<exists>h. f c = Inr h \<and> (\<forall>r. occurrences P (h @ r) = n + occurrences P r)) xs"
  shows "\<forall>r. occurrences P (join (map (\<lambda>c. fragment (f c)) xs) @ r) =
           n * length xs + occurrences P r"
  using assms
proof (induction xs)
  case Nil
  show ?case by (simp add: join_def)
next
  case (Cons c xs)
  then have cards: "\<And>r. occurrences P (join (map (\<lambda>c. fragment (f c)) xs) @ r) =
      n * length xs + occurrences P r"
    by auto
  from Cons.prems obtain h where h: "f c = Inr h"
      "\<And>r. occurrences P (h @ r) = n + occurrences P r"
    by auto
  show ?case
    using h(2) [of "join (map (\<lambda>c. fragment (f c)) xs) @ r" for r] cards
    by (simp add: join_def fragment_def h(1))
qed

lemma items_count:
  "list_all plain xs \<Longrightarrow>
     occurrences ''<li>'' (join (map li xs) @ r) = length xs + occurrences ''<li>'' r"
  by (induction xs) (simp_all add: join_def li_def occurrences_field plain_def)

lemma items_no_div:
  "P = CHR ''<'' # CHR ''d'' # q \<Longrightarrow> list_all plain xs \<Longrightarrow>
     occurrences P (join (map li xs) @ r) = occurrences P r"
  by (induction xs) (simp_all add: join_def li_def occurrences_field plain_def)

lemma advisory_slot_no_div:
  "P = CHR ''<'' # CHR ''d'' # q \<Longrightarrow>
     occurrences P ((if b then mbaAdvisory else []) @ r) = occurrences P r"
  by (simp add: mbaAdvisory_def)

lemma diversify_slot_no_div:
  "P = CHR ''<'' # CHR ''d'' # q \<Longrightarrow>
     occurrences P ((if b then diversifyAdvisory else []) @ r) = occurrences P r"
  by (simp add: diversifyAdvisory_def)

lemma badge_no_div:
  "P = CHR ''<'' # CHR ''d'' # q \<Longrightarrow> occurrences P (eligibilityBadge e @ r) = occurrences P r"
  by (simp add: eligibilityBadge_def split: option.splits)

lemma reason_no_div:
  "P = CHR ''<'' # CHR ''d'' # q \<Longrightarrow>
   (case e of None \<Rightarrow> True | Some x \<Rightarrow> plain_field (reason x)) \<Longrightarrow>
     occurrences P (eligibilityReason e @ r) = occurrences P r"
  by (simp add: eligibilityReason_def occurrences_field split: option.splits)

lemma fee_no_div:
  "P = CHR ''<'' # CHR ''d'' # q \<Longrightarrow> plain_field fee \<Longrightarrow>
     occurrences P (feeDisplay fee @ r) = occurrences P r"
  by (cases fee)
    (simp_all add: feeDisplay_def truthy_def occurrences_field interp_def
       plain_field_def plain_def)

lemma score_no_div:
  "P = CHR ''<'' # CHR ''d'' # CHR ''i'' # q \<Longrightarrow> plain_field sb \<Longrightarrow>
     occurrences P (scoreDisclosure sb @ r) = occurrences P r"
  by (simp add: scoreDisclosure_def occurrences_field)

lemmas tag_count =
  occurrences_field occurrences_chunk items_count items_no_div advisory_slot_no_div
  diversify_slot_no_div badge_no_div reason_no_div fee_no_div score_no_div

lemma trioCard_tags:
  assumes "trio_programme c \<noteq> None" "plain_trio_entry c"
  shows "\<exists>h. trioCard c = Inr h \<and>
           (\<forall>r. occurrences ''<div class=\"result-category'' (h @ r) =
                  0 + occurrences ''<div class=\"result-category'' r) \<and>
           (\<forall>r. occurrences ''<div id=\"profile-analysis-section\" class=\"result-category'' (h @ r) =
                  0 + occurrences ''<div id=\"profile-analysis-section\" class=\"result-category'' r) \<and>
           (\<forall>r. occurrences ''<div class=\"trio-card\">'' (h @ r) =
                  1 + occurrences ''<div class=\"trio-card\">'' r)"
proof -
  from assms(1) obtain p where p: "trio_programme c = Some p" by auto
  with assms(2) have pl: "CHR ''<'' \<notin> set p" "plain_field (trio_university c)"
      "plain_field (why_this_trio c)"
    by (simp_all add: plain_trio_entry_def plain_field_def plain_def)
  show ?thesis
    using pl by (simp add: trioCard_def p tag_count del: append.simps)
qed

lemma courseCard_tags:
  assumes "programme c \<noteq> None" "chevening_rationale c \<noteq> None"
    "plain_field (programme c)" "plain_course c"
  shows "\<exists>h. courseCard c = Inr h \<and>
           (\<forall>r. occurrences ''<div class=\"result-category'' (h @ r) =
                  0 + occurrences ''<div class=\"result-category'' r) \<and>
           (\<forall>r. occurrences ''<div id=\"profile-analysis-section\" class=\"result-category'' (h @ r) =
                  0 + occurrences ''<div id=\"profile-analysis-section\" class=\"result-category'' r) \<and>
           (\<forall>r. occurrences ''<div class=\"course-card\">'' (h @ r) =
                  1 + occurrences ''<div class=\"course-card\">'' r)"
proof -
  from assms(1,2) obtain p rs where p: "programme c = Some p"
      and rs: "chevening_rationale c = Some rs" by auto
  from assms(3,4) have pl:
    "CHR ''<'' \<notin> set p" "plain_field (university c)"
    "case eligibility_check c of None \<Rightarrow> True | Some e \<Rightarrow> plain_field (reason e)"
    "plain_field (city c)" "plain_field (start_cycle c)" "plain_field (fee_gbp c)"
    "plain_field (score_breakdown c)" "list_all plain rs" "plain_field (url c)"
    "plain_field (rank c)" "plain_field (duration_months c)"
    by (simp_all add: plain_course_def p rs plain_field_def plain_def)
  show ?thesis
    using pl by (simp add: courseCard_def p rs tag_count del: append.simps)
qed

text \<open>The blocks: one opening tag of a block, and one opening tag of an entry for each element.\<close>

lemma renderProfileAnalysis_tags:
  assumes "strengths p = Some ss" "gaps p = Some gs" "list_all plain ss" "list_all plain gs"
  shows "(\<forall>r. occurrences ''<div class=\"result-category'' (renderProfileAnalysis p @ r) =
                0 + occurrences ''<div class=\"result-category'' r) \<and>
         (\<forall>r. occurrences ''<div id=\"profile-analysis-section\" class=\"result-category''
                  (renderProfileAnalysis p @ r) =
                1 + occurrences ''<div id=\"profile-analysis-section\" class=\"result-category'' r) \<and>
         occurrences ''<li>'' (renderProfileAnalysis p) = length ss + length gs"
  using assms(3,4) by (simp add: renderProfileAnalysis_def assms(1,2) tag_count del: append.simps)

lemma renderBullets_tags:
  assumes "leadership b = Some ls" "networking b = Some ns" "career_plan b = Some cs"
    "list_all plain ls" "list_all plain ns" "list_all plain cs"
  shows "\<exists>h. renderBullets b = Inr h \<and>
         (\<forall>r. occurrences ''<div class=\"result-category'' (h @ r) =
                1 + occurrences ''<div class=\"result-category'' r) \<and>
         (\<forall>r. occurrences ''<div id=\"profile-analysis-section\" class=\"result-category'' (h @ r) =
                0 + occurrences ''<div id=\"profile-analysis-section\" class=\"result-category'' r) \<and>
         occurrences ''<li>'' h = length ls + length ns + length cs"
  using assms(4,5,6) by (simp add: renderBullets_def assms(1,2,3) tag_count del: append.simps)

lemma renderNotes_tags:
  assumes "list_all plain ns"
  shows "(\<forall>r. occurrences ''<div class=\"result-category'' (renderNotes ns @ r) =
                1 + occurrences ''<div class=\"result-category'' r) \<and>
         (\<forall>r. occurrences ''<div id=\"profile-analysis-section\" class=\"result-category''
                  (renderNotes ns @ r) =
                0 + occurrences ''<div id=\"profile-analysis-section\" class=\"result-category'' r) \<and>
         occurrences ''<li>'' (renderNotes ns) = length ns"
  using assms by (simp add: renderNotes_def tag_count del: append.simps)

lemma renderTrio_tags:
  assumes "list_all (\<lambda>c. trio_programme c \<noteq> None) t" "list_all plain_trio_entry t"
  shows "\<exists>h. renderTrio t = Inr h \<and>
         (\<forall>r. occurrences ''<div class=\"result-category'' (h @ r) =
                1 + occurrences ''<div class=\"result-category'' r) \<and>
         (\<forall>r. occurrences ''<div id=\"profile-analysis-section\" class=\"result-category'' (h @ r) =
                0 + occurrences ''<div id=\"profile-analysis-section\" class=\"result-category'' r) \<and>
         occurrences ''<div class=\"trio-card\">'' h = length t"
proof -
  from assms have each: "list_all (\<lambda>c. trio_programme c \<noteq> None \<and> plain_trio_entry c) t"
    by (simp add: list_all_iff)
  note cards = trio_cards_total [OF assms(1)]
  have c1: "\<forall>r. occurrences ''<div class=\"result-category''
      (join (map (\<lambda>c. fragment (trioCard c)) t) @ r) =
      0 * length t + occurrences ''<div class=\"result-category'' r"
    by (rule cards_count) (use each trioCard_tags in \<open>fastforce simp: list_all_iff\<close>)
  have c2: "\<forall>r. occurrences ''<div id=\"profile-analysis-section\" class=\"result-category''
      (join (map (\<lambda>c. fragment (trioCard c)) t) @ r) =
      0 * length t + occurrences ''<div id=\"profile-analysis-section\" class=\"result-category'' r"
    by (rule cards_count) (use each trioCard_tags in \<open>fastforce simp: list_all_iff\<close>)
  have c3: "\<forall>r. occurrences ''<div class=\"trio-card\">''
      (join (map (\<lambda>c. fragment (trioCard c)) t) @ r) =
      1 * length t + occurrences ''<div class=\"trio-card\">'' r"
    by (rule cards_count) (use each trioCard_tags in \<open>fastforce simp: list_all_iff\<close>)
  show ?thesis
    using c1 c2 c3 by (simp add: renderTrio_def Let_def cards tag_count del: append.simps)
qed

lemma renderRankedCourses_tags:
  assumes "list_all (\<lambda>c. programme c \<noteq> None \<and> chevening_rationale c \<noteq> None) cs"
    "list_all (\<lambda>c. plain_field (programme c) \<and> plain_course c) cs"
  shows "\<exists>h. renderRankedCourses cs = Inr h \<and>
         (\<forall>r. occurrences ''<div class=\"result-category'' (h @ r) =
                1 + occurrences ''<div class=\"result-category'' r) \<and>
         (\<forall>r. occurrences ''<div id=\"profile-analysis-section\" class=\"result-category'' (h @ r) =
                0 + occurrences ''<div id=\"profile-analysis-section\" class=\"result-category'' r) \<and>
         occurrences ''<div class=\"course-card\">'' h = length cs"
proof -
  from assms have each: "list_all (\<lambda>c. programme c \<noteq> None \<and> chevening_rationale c \<noteq> None \<and>
      plain_field (programme c) \<and> plain_course c) cs"
    by (simp add: list_all_iff)
  note cards = course_cards_total [OF assms(1)]
  have c1: "\<forall>r. occurrences ''<div class=\"result-category''
      (join (map (\<lambda>c. fragment (courseCard c)) cs) @ r) =
      0 * length cs + occurrences ''<div class=\"result-category'' r"
    by (rule cards_count) (use each courseCard_tags in \<open>fastforce simp: list_all_iff\<close>)
  have c2: "\<forall>r. occurrences ''<div id=\"profile-analysis-section\" class=\"result-category''
      (join (map (\<lambda>c. fragment (courseCard c)) cs) @ r) =
      0 * length cs + occurrences ''<div id=\"profile-analysis-section\" class=\"result-category'' r"
    by (rule cards_count) (use each courseCard_tags in \<open>fastforce simp: list_all_iff\<close>)
  have c3: "\<forall>r. occurrences ''<div class=\"course-card\">''
      (join (map (\<lambda>c. fragment (courseCard c)) cs) @ r) =
      1 * length cs + occurrences ''<div class=\"course-card\">'' r"
    by (rule cards_count) (use each courseCard_tags in \<open>fastforce simp: list_all_iff\<close>)
  show ?thesis
    using c1 c2 c3 by (simp add: renderRankedCourses_def cards tag_count del: append.simps)
qed

text \<open>The text of each element stands in the block.\<close>

lemma sublist_first: "sublist xs ys \<Longrightarrow> sublist xs (ys @ zs) = True"
  by (simp add: sublist_append)

lemmas sublist_in_block = sublist_first sublist_skip_simp

lemma member_sublist: "x \<in> set xs \<Longrightarrow> sublist (f x) (join (map f xs))"
proof -
  assume "x \<in> set xs"
  then obtain ps ss where "xs = ps @ x # ss" by (auto simp: in_set_conv_decomp)
  then have "join (map f xs) = join (map f ps) @ f x @ join (map f ss)"
    by (simp add: join_def)
  then show ?thesis by (simp add: sublist_appendI)
qed

lemma item_in_list: "x \<in> set xs \<Longrightarrow> sublist (item_text x) (join (map li xs))"
  using member_sublist [of x xs li] by (simp add: item_text_def li_def)

lemma renderNotes_texts:
  "x \<in> set ns \<Longrightarrow> sublist (item_text x) (renderNotes ns)"
  by (simp add: renderNotes_def item_in_list sublist_in_block del: append.simps)

lemma renderProfileAnalysis_texts:
  assumes "strengths p = Some ss" "gaps p = Some gs" "x \<in> set (ss @ gs)"
  shows "sublist (item_text x) (renderProfileAnalysis p)"
  using assms(3)
  by (auto simp add: renderProfileAnalysis_def assms(1,2) item_in_list sublist_in_block
        simp del: append.simps)

lemma renderBullets_texts:
  assumes "leadership b = Some ls" "networking b = Some ns" "career_plan b = Some cs"
    "x \<in> set (ls @ ns @ cs)"
  shows "sublist (item_text x) (fragment (renderBullets b))"
  using assms(4)
  by (auto simp add: renderBullets_def fragment_def assms(1,2,3) item_in_list sublist_in_block
        simp del: append.simps)

lemma interp_present: "interp (Some s) = s"
  by (simp add: interp_def)

lemma trioCard_text:
  assumes "trio_programme c \<noteq> None"
  shows "sublist (''<h3>'' @ interp (trio_programme c) @ ''</h3>'') (fragment (trioCard c))"
proof -
  from assms obtain p where p: "trio_programme c = Some p" by auto
  have "''              <h3>'' @ p @ ''</h3>\<newline>'' @ r =
      ''              '' @ (''<h3>'' @ p @ ''</h3>'') @ ''\<newline>'' @ r" for r
    by simp
  then have here:
    "sublist (''<h3>'' @ p @ ''</h3>'') (''              <h3>'' @ p @ ''</h3>\<newline>'' @ r) = True"
    for r
    by (simp only: sublist_appendI)
  show ?thesis
    by (simp add: trioCard_def fragment_def p interp_present sublist_skip_simp here
          del: append.simps)
qed

lemma courseCard_text:
  assumes "programme c \<noteq> None" "chevening_rationale c \<noteq> None"
  shows "sublist (''<h3>'' @ interp (rank c) @ ''. '' @ interp (programme c) @ ''</h3>'')
           (fragment (courseCard c))"
proof -
  from assms obtain p rs where p: "programme c = Some p" "chevening_rationale c = Some rs"
    by auto
  have "''              <h3>'' @ n @ ''. '' @ p @ ''</h3>\<newline>'' @ r =
      ''              '' @ (''<h3>'' @ n @ ''. '' @ p @ ''</h3>'') @ ''\<newline>'' @ r" for r n
    by simp
  then have here:
    "sublist (''<h3>'' @ n @ ''. '' @ p @ ''</h3>'')
       (''              <h3>'' @ n @ ''. '' @ p @ ''</h3>\<newline>'' @ r) = True"
    for r n
    by (simp only: sublist_appendI)
  show ?thesis
    by (simp add: courseCard_def fragment_def p interp_present sublist_skip_simp here
          del: append.simps)
qed

lemma renderTrio_texts:
  assumes "list_all (\<lambda>c. trio_programme c \<noteq> None) t" "c \<in> set t"
  shows "sublist (''<h3>'' @ interp (trio_programme c) @ ''</h3>'') (fragment (renderTrio t))"
proof -
  from assms have "trio_programme c \<noteq> None" by (simp add: list_all_iff)
  then have "sublist (''<h3>'' @ interp (trio_programme c) @ ''</h3>'') (fragment (trioCard c))"
    by (rule trioCard_text)
  moreover have "sublist (fragment (trioCard c)) (join (map (\<lambda>c. fragment (trioCard c)) t))"
    using assms(2) by (rule member_sublist)
  ultimately have "sublist (''<h3>'' @ interp (trio_programme c) @ ''</h3>'')
      (join (map (\<lambda>c. fragment (trioCard c)) t))"
    using sublist_order.order.trans by blast
  then show ?thesis
    by (simp add: renderTrio_def Let_def fragment_def trio_cards_total [OF assms(1)]
          sublist_in_block del: append.simps)
qed

lemma renderRankedCourses_texts:
  assumes "list_all (\<lambda>c. programme c \<noteq> None \<and> chevening_rationale c \<noteq> None) cs" "c \<in> set cs"
  shows "sublist (''<h3>'' @ interp (rank c) @ ''. '' @ interp (programme c) @ ''</h3>'')
           (fragment (renderRankedCourses cs))"
proof -
  from assms have "programme c \<noteq> None" "chevening_rationale c \<noteq> None"
    by (simp_all add: list_all_iff)
  then have "sublist (''<h3>'' @ interp (rank c) @ ''. '' @ interp (programme c) @ ''</h3>'')
      (fragment (courseCard c))"
    by (rule courseCard_text)
  moreover have "sublist (fragment (courseCard c)) (join (map (\<lambda>c. fragment (courseCard c)) cs))"
    using assms(2) by (rule member_sublist)
  ultimately have "sublist (''<h3>'' @ interp (rank c) @ ''. '' @ interp (programme c) @ ''</h3>'')
      (join (map (\<lambda>c. fragment (courseCard c)) cs))"
    using sublist_order.order.trans by blast
  then show ?thesis
    by (simp add: renderRankedCourses_def fragment_def course_cards_total [OF assms(1)]
          sublist_in_block del: append.simps)
qed

lemma blocks_count:
  assumes "\<forall>k \<in> set ks. \<forall>r. occurrences P (f k @ r) = c k + occurrences P r"
  shows "occurrences P (concat (map f ks) @ r) = sum_list (map c ks) + occurrences P r"
  using assms by (induction ks) auto

lemma present_block_facts:
  assumes wf: "well_formed d" and pl: "plain_document d" and pk: "present d k"
    and na: "k \<noteq> AlternativesK"
  shows "\<forall>r. occurrences ''<div class=\"result-category'' (block d k @ r) =
           (if k = ProfileK then 0 else 1) + occurrences ''<div class=\"result-category'' r"
    and "\<forall>r. occurrences ''<div id=\"profile-analysis-section\" class=\"result-category''
               (block d k @ r) =
           (if k = ProfileK then 1 else 0) +
           occurrences ''<div id=\"profile-analysis-section\" class=\"result-category'' r"
    and "occurrences (entry_open k) (block d k) = entry_count d k"
    and "\<forall>x \<in> set (entry_texts d k). sublist x (block d k)"
proof -
  have "(\<forall>r. occurrences ''<div class=\"result-category'' (block d k @ r) =
           (if k = ProfileK then 0 else 1) + occurrences ''<div class=\"result-category'' r) \<and>
        (\<forall>r. occurrences ''<div id=\"profile-analysis-section\" class=\"result-category''
               (block d k @ r) =
           (if k = ProfileK then 1 else 0) +
           occurrences ''<div id=\"profile-analysis-section\" class=\"result-category'' r) \<and>
        occurrences (entry_open k) (block d k) = entry_count d k \<and>
        (\<forall>x \<in> set (entry_texts d k). sublist x (block d k))"
  proof (cases k)
    case ProfileK
    with pk obtain p where p: "profile d = Some p" by auto
    with well_formedD(1) [OF wf] obtain ss gs
      where f: "strengths p = Some ss" "gaps p = Some gs" by blast
    from pl p f have plain: "list_all plain ss" "list_all plain gs"
      by (simp_all add: plain_document_def elements_of_def)
    from renderProfileAnalysis_tags [OF f plain] renderProfileAnalysis_texts [OF f]
    show ?thesis by (auto simp add: ProfileK p f elements_of_def)
  next
    case TrioK
    with pk obtain t where t: "chevening_trio d = Some t" by auto
    from pl t have plain: "list_all plain_trio_entry t"
      by (simp add: plain_document_def elements_of_def)
    note has = well_formedD(2) [OF wf t]
    from renderTrio_tags [OF has plain] renderTrio_texts [OF has]
    show ?thesis by (auto simp add: TrioK t elements_of_def fragment_def)
  next
    case RankedK
    with pk obtain cs where cs: "ranked_courses d = Some cs" by auto
    from pl cs have plain: "list_all (\<lambda>c. plain_field (programme c) \<and> plain_course c) cs"
      by (simp add: plain_document_def elements_of_def)
    note has = well_formedD(3) [OF wf cs]
    from renderRankedCourses_tags [OF has plain] renderRankedCourses_texts [OF has]
    show ?thesis by (auto simp add: RankedK cs elements_of_def fragment_def)
  next
    case BulletsK
    with pk obtain b where b: "personal_statement_bullets d = Some b" by auto
    with well_formedD(4) [OF wf] obtain ls ns cs
      where f: "leadership b = Some ls" "networking b = Some ns" "career_plan b = Some cs"
      by blast
    from pl b f have plain: "list_all plain ls" "list_all plain ns" "list_all plain cs"
      by (simp_all add: plain_document_def elements_of_def)
    from renderBullets_tags [OF f plain] renderBullets_texts [OF f]
    show ?thesis by (auto simp add: BulletsK b f elements_of_def fragment_def)
  next
    case AlternativesK
    with na show ?thesis by simp
  next
    case NotesK
    with pk obtain ns where ns: "notes d = Some ns" by auto
    from pl ns have plain: "list_all plain ns"
      by (simp add: plain_document_def elements_of_def)
    from renderNotes_tags [OF plain] renderNotes_texts [of _ ns]
    show ?thesis by (auto simp add: NotesK ns elements_of_def)
  qed
  then show
    "\<forall>r. occurrences ''<div class=\"result-category'' (block d k @ r) =
           (if k = ProfileK then 0 else 1) + occurrences ''<div class=\"result-category'' r"
    "\<forall>r. occurrences ''<div id=\"profile-analysis-section\" class=\"result-category''
               (block d k @ r) =
           (if k = ProfileK then 1 else 0) +
           occurrences ''<div id=\"profile-analysis-section\" class=\"result-category'' r"
    "occurrences (entry_open k) (block d k) = entry_count d k"
    "\<forall>x \<in> set (entry_texts d k). sublist x (block d k)"
    by blast+
qed

lemma block_tags_one:
  assumes "well_formed d" "plain_document d" "present d k" "k \<noteq> AlternativesK"
  shows "block_tags (block d k) = 1"
  using present_block_facts(1,2) [OF assms, THEN spec, of "[]"]
  by (simp add: block_tags_def del: block.simps)

lemma block_tags_total:
  assumes "well_formed d" "plain_document d" "\<forall>k \<in> set ks. present d k \<and> k \<noteq> AlternativesK"
  shows "block_tags (concat (map (block d) ks)) = length ks"
proof -
  let ?T1 = "''<div class=\"result-category''"
  let ?T2 = "''<div id=\"profile-analysis-section\" class=\"result-category''"
  have 1: "occurrences ?T1 (concat (map (block d) ks) @ []) =
      sum_list (map (\<lambda>k. if k = ProfileK then 0 else 1) ks) + occurrences ?T1 []"
    by (rule blocks_count) (use assms present_block_facts(1) in blast)
  have 2: "occurrences ?T2 (concat (map (block d) ks) @ []) =
      sum_list (map (\<lambda>k. if k = ProfileK then 1 else 0) ks) + occurrences ?T2 []"
    by (rule blocks_count) (use assms present_block_facts(2) in blast)
  have "sum_list (map (\<lambda>k. if k = ProfileK then 0 else 1) ks) +
      sum_list (map (\<lambda>k. if k = ProfileK then 1 else 0) ks) = length ks" for ks :: "kind list"
    by (induction ks) auto
  with 1 2 show ?thesis by (simp add: block_tags_def)
qed


section \<open>The claims\<close>

text \<open>
  Claim C1, as amended.  For a well-formed document that holds no alternatives,
  \<open>renderResults\<close> does not throw: it empties the results and then, in the order profile
  analysis, trio, ranked courses, bullets, notes, appends the block of each section the
  document holds, and nothing for a section it does not hold.  Before each block it has
  the markup of the results read back, so the results end as \<open>assemble readBack\<close> of the
  blocks; with a runtime that returns markup as it was assigned, that is the concatenation
  of the blocks.  When the texts of the document are plain, the block of each section opens
  one block, has one opening tag of an entry for each element of the lists of the section
  and holds the text of each element, and the concatenation has as many openings of a
  block as the document has sections.
\<close>

theorem renderResults_blocks:
  "well_formed d \<and> alternatives d = None \<longrightarrow>
     renderResults readBack d s =
       Inr (s\<lparr>resultsHTML :=
              assemble readBack (map (block d) (filter (present d) fixed_order))\<rparr>) \<and>
     renderResults (\<lambda>markup. markup) d s =
       Inr (s\<lparr>resultsHTML := concat (map (block d) (filter (present d) fixed_order))\<rparr>) \<and>
     (plain_document d \<longrightarrow>
        (\<forall>k \<in> set (filter (present d) fixed_order).
           block_tags (block d k) = 1 \<and>
           occurrences (entry_open k) (block d k) = entry_count d k \<and>
           (\<forall>x \<in> set (entry_texts d k). sublist x (block d k))) \<and>
        block_tags (concat (map (block d) (filter (present d) fixed_order))) =
          length (filter (present d) fixed_order))"
proof (intro impI conjI ballI)
  assume a: "well_formed d \<and> alternatives d = None"
  then have wf: "well_formed d" by simp
  show "renderResults readBack d s =
       Inr (s\<lparr>resultsHTML :=
              assemble readBack (map (block d) (filter (present d) fixed_order))\<rparr>)"
    by (rule renderResults_well_formed [OF wf])
  show "renderResults (\<lambda>markup. markup) d s =
       Inr (s\<lparr>resultsHTML := concat (map (block d) (filter (present d) fixed_order))\<rparr>)"
    by (simp only: renderResults_well_formed [OF wf] assemble_identity)
next
  fix k
  assume a: "well_formed d \<and> alternatives d = None" and pl: "plain_document d"
    and k: "k \<in> set (filter (present d) fixed_order)"
  from a k have pk: "present d k" and na: "k \<noteq> AlternativesK" by auto
  from a have wf: "well_formed d" by simp
  show "block_tags (block d k) = 1" by (rule block_tags_one [OF wf pl pk na])
  show "occurrences (entry_open k) (block d k) = entry_count d k"
    by (rule present_block_facts(3) [OF wf pl pk na])
  fix x assume "x \<in> set (entry_texts d k)"
  with present_block_facts(4) [OF wf pl pk na] show "sublist x (block d k)" by blast
next
  assume a: "well_formed d \<and> alternatives d = None" and pl: "plain_document d"
  then have "\<forall>k \<in> set (filter (present d) fixed_order). present d k \<and> k \<noteq> AlternativesK"
    by auto
  with a pl show "block_tags (concat (map (block d) (filter (present d) fixed_order))) =
          length (filter (present d) fixed_order)"
    by (intro block_tags_total) simp_all
qed

theorem renderResults_blocks_witness:
  "well_formed five_sections \<and> alternatives five_sections = None \<and>
   plain_document five_sections \<and>
   filter (present five_sections) fixed_order = [ProfileK, TrioK, RankedK, BulletsK, NotesK] \<and>
   renderResults id five_sections stale_page =
     Inr (stale_page\<lparr>resultsHTML :=
       block five_sections ProfileK @ block five_sections TrioK @
       block five_sections RankedK @ block five_sections BulletsK @
       block five_sections NotesK\<rparr>) \<and>
   block_tags
     (block five_sections ProfileK @ block five_sections TrioK @ block five_sections RankedK @
      block five_sections BulletsK @ block five_sections NotesK) = 5 \<and>
   block_tags (block five_sections RankedK) = 1 \<and>
   occurrences ''<div class=\"course-card\">'' (block five_sections RankedK) = 2 \<and>
   sublist ''<h3>1. MSc Finance</h3>'' (block five_sections RankedK) \<and>
   well_formed notes_only \<and> alternatives notes_only = None \<and>
   renderResults id notes_only stale_page =
     Inr (stale_page\<lparr>resultsHTML := renderNotes [''Verify fees.'']\<rparr>)"
proof -
  have a: "well_formed five_sections"
    by (simp add: well_formed_def five_sections_def full_document_def leeds_trio_def
          msc_trio_entry_def mba_trio_entry_def msc_course_def mba_course_def)
  have b: "alternatives five_sections = None" by (simp add: five_sections_def)
  have c: "plain_document five_sections"
    by (simp add: plain_document_def five_sections_def full_document_def leeds_trio_def
          msc_trio_entry_def mba_trio_entry_def msc_course_def mba_course_def elements_of_def
          plain_trio_entry_def plain_course_def plain_field_def plain_def)
  have d: "filter (present five_sections) fixed_order = [ProfileK, TrioK, RankedK, BulletsK, NotesK]"
    by (simp add: fixed_order_def five_sections_def full_document_def)
  have e: "well_formed notes_only" by (simp add: well_formed_def notes_only_def)
  have f: "alternatives notes_only = None" by (simp add: notes_only_def)
  have g: "filter (present notes_only) fixed_order = [NotesK]"
    by (simp add: fixed_order_def notes_only_def)
  note W = renderResults_blocks [of five_sections id stale_page]
  have k: "RankedK \<in> set (filter (present five_sections) fixed_order)"
    unfolding d by simp
  have x: "''<h3>1. MSc Finance</h3>'' \<in> set (entry_texts five_sections RankedK)"
    by (simp add: five_sections_def full_document_def elements_of_def msc_course_def interp_def)
  from W a b have r1: "renderResults id five_sections stale_page =
     Inr (stale_page\<lparr>resultsHTML :=
       assemble id (map (block five_sections) (filter (present five_sections) fixed_order))\<rparr>)"
    by blast
  have r1': "renderResults id five_sections stale_page =
     Inr (stale_page\<lparr>resultsHTML :=
       block five_sections ProfileK @ block five_sections TrioK @
       block five_sections RankedK @ block five_sections BulletsK @
       block five_sections NotesK\<rparr>)"
    unfolding r1 d by (simp add: assemble_def del: block.simps)
  from W a b c have "block_tags (concat (map (block five_sections)
      (filter (present five_sections) fixed_order))) =
      length (filter (present five_sections) fixed_order)"
    by blast
  then have r2: "block_tags
     (block five_sections ProfileK @ block five_sections TrioK @ block five_sections RankedK @
      block five_sections BulletsK @ block five_sections NotesK) = 5"
    unfolding d by (simp del: block.simps)
  from W a b c k have r3: "block_tags (block five_sections RankedK) = 1"
    and r4: "occurrences (entry_open RankedK) (block five_sections RankedK) =
      entry_count five_sections RankedK"
    and r5: "\<forall>x \<in> set (entry_texts five_sections RankedK). sublist x (block five_sections RankedK)"
    by blast+
  from r4 have r4': "occurrences ''<div class=\"course-card\">'' (block five_sections RankedK) = 2"
    by (simp add: five_sections_def full_document_def elements_of_def del: block.simps)
  from r5 x have r5': "sublist ''<h3>1. MSc Finance</h3>'' (block five_sections RankedK)"
    by blast
  from renderResults_blocks [of notes_only id stale_page] e f
  have "renderResults id notes_only stale_page =
     Inr (stale_page\<lparr>resultsHTML :=
       assemble id (map (block notes_only) (filter (present notes_only) fixed_order))\<rparr>)"
    by blast
  then have r6: "renderResults id notes_only stale_page =
     Inr (stale_page\<lparr>resultsHTML := renderNotes [''Verify fees.'']\<rparr>)"
    unfolding g by (simp add: assemble_def notes_only_def)
  from a b c d r1' r2 r3 r4' r5' e f r6 show ?thesis by blast
qed

text \<open>
  The claim as it was stated fails: a document of one section whose note carries markup is
  rendered with two blocks, and with two list items for its one note.
\<close>

theorem renderResults_injected_block:
  "well_formed injected_notes \<and>
   filter (present injected_notes) fixed_order = [NotesK] \<and>
   entry_count injected_notes NotesK = 1 \<and>
   renderResults id injected_notes page0 =
     Inr (page0\<lparr>resultsHTML := block injected_notes NotesK\<rparr>) \<and>
   block_tags (block injected_notes NotesK) = 2 \<and>
   occurrences ''<li>'' (block injected_notes NotesK) = 2"
proof -
  have a: "well_formed injected_notes"
    by (simp add: well_formed_def injected_notes_def notes_only_def)
  have b: "filter (present injected_notes) fixed_order = [NotesK]"
    by (simp add: fixed_order_def injected_notes_def notes_only_def)
  have c: "entry_count injected_notes NotesK = 1"
    by (simp add: injected_notes_def notes_only_def elements_of_def)
  have d: "renderResults id injected_notes page0 =
      Inr (page0\<lparr>resultsHTML := block injected_notes NotesK\<rparr>)"
    by (simp add: renderResults_def append_section_def and_then_def injected_notes_def
          notes_only_def page0_def)
  have blk: "block injected_notes NotesK =
      renderNotes [''Verify fees.</li></ul></div><div class=\"result-category\"><h2>More</h2><ul><li>Apply early.'']"
    by (simp add: injected_notes_def notes_only_def)
  have e: "block_tags (block injected_notes NotesK) = 2"
    unfolding blk by (simp add: block_tags_def renderNotes_def join_def li_def)
  have f: "occurrences ''<li>'' (block injected_notes NotesK) = 2"
    unfolding blk by (simp add: renderNotes_def join_def li_def)
  from a b c d e f show ?thesis by blast
qed



text \<open>
  Claim C3, at the input where the code departs from it.  A submission with an allow-listed
  file whose read fails enters the loading view and stays there: the listener awaits a
  promise that is never settled, so neither the \<^verbatim>\<open>catch\<close> nor the \<^verbatim>\<open>finally\<close> block runs.
  The loading section is shown, the submit button is disabled and the error panel is
  hidden.  (A run on a file that can be read does reach the results or the \<^verbatim>\<open>catch\<close>
  block, \<open>readable_submission_settles\<close>, and after the \<^verbatim>\<open>catch\<close> block the page is the
  error view, \<open>catch_finally_error_view\<close>.)
\<close>

theorem submit_unreadable_file_hangs:
  "submit rb g p
     (frm\<lparr>cvFile := Some (f\<lparr>file_type := ''application/pdf'', readable := False\<rparr>)\<rparr>) s =
     \<lparr>page = showLoading True s, sent = [], returned = False\<rparr> \<and>
   \<not> loadingHidden (showLoading True s) \<and> submitDisabled (showLoading True s) \<and>
   errorHidden (showLoading True s)"
  by (simp add: submit_def allowedTypes_def fileToGenerativePart_def readAsDataURL_def
        showLoading_on_fields)

text \<open>
  Claim C4, at the inputs where the code departs from it.  Of the generators only
  \<open>renderProfileAnalysis\<close> returns the empty fragment when its lists are absent.
  \<open>renderBullets\<close> on a section with no lists, \<open>renderTrio\<close> on an entry with no
  programme and \<open>renderRankedCourses\<close> on a course with no rationale list throw a
  \<^verbatim>\<open>TypeError\<close>.
\<close>

theorem generators_on_absent_fields:
  "renderProfileAnalysis \<lparr>strengths = None, gaps = None\<rparr> = [] \<and>
   renderBullets \<lparr>leadership = None, networking = None, career_plan = None\<rparr> =
     Inl (TypeError ''map'') \<and>
   renderTrio [\<lparr>trio_university = None, trio_programme = None, why_this_trio = None\<rparr>] =
     Inl (TypeError ''toLowerCase'') \<and>
   renderRankedCourses
     [\<lparr>rank = None, university = None, programme = Some ''MSc'', city = None, url = None,
       start_cycle = None, duration_months = None, fee_gbp = None,
       chevening_rationale = None, eligibility_check = None,
       score_breakdown = None\<rparr>] = Inl (TypeError ''map'')"
  by (simp add: renderProfileAnalysis_def renderBullets_def renderTrio_def trioCard_def
        renderRankedCourses_def courseCard_def)

text \<open>
  Claim C5, at the input where the code departs from it.  For a file whose read fails the
  promise \<open>fileToGenerativePart\<close> returns is not rejected: it is never settled.
\<close>

theorem unreadable_file_never_settles:
  "fileToGenerativePart (f\<lparr>readable := False\<rparr>) = Pending"
  by (simp add: fileToGenerativePart_def readAsDataURL_def)

text \<open>
  Claim C6, as amended.  For a file that can be read and whose MIME type holds no comma,
  the encoder's promise is fulfilled with a transport representation that decodes to the
  bytes of the file and to its MIME type.  (\<^verbatim>\<open>split(',')[1]\<close> takes what stands
  between the first and the second comma of the data URL; base64 text has no comma, and
  the MIME types of the allow-list, like every type built of RFC 2045 tokens, have none.)
\<close>

theorem encoding_round_trip:
  assumes "readable f" "CHR '','' \<notin> set (file_type f)"
  shows "\<exists>part. fileToGenerativePart f = Fulfilled part \<and>
           decode_part part = Some (content f, file_type f)"
proof -
  let ?head = "''data:'' @ file_type f @ '';base64''"
  have url: "readAsDataURL f = Some (?head @ CHR '','' # base64 (content f))"
    using assms(1) by (simp add: readAsDataURL_def)
  have "CHR '','' \<notin> set ?head" using assms(2) by simp
  then have "split_str (CHR '','') (?head @ CHR '','' # base64 (content f)) =
      ?head # split_str (CHR '','') (base64 (content f))"
    by (rule split_str_first)
  also have "split_str (CHR '','') (base64 (content f)) = [base64 (content f)]"
    by (rule split_str_plain) (rule base64_no_comma)
  finally have "fileToGenerativePart f =
      Fulfilled \<lparr>data = Some (base64 (content f)), mimeType = file_type f\<rparr>"
    using url by (simp add: fileToGenerativePart_def at_index_def)
  moreover have "decode_part \<lparr>data = Some (base64 (content f)), mimeType = file_type f\<rparr> =
      Some (content f, file_type f)"
    by (simp add: decode_part_def base64_round_trip)
  ultimately show ?thesis by blast
qed

theorem encoding_round_trip_witness:
  "readable text_file \<and> CHR '','' \<notin> set (file_type text_file) \<and>
   fileToGenerativePart text_file = Fulfilled \<lparr>data = Some ''aGk='', mimeType = ''text/plain''\<rparr> \<and>
   decode_part \<lparr>data = Some ''aGk='', mimeType = ''text/plain''\<rparr> =
     Some ([0x68, 0x69], ''text/plain'')"
proof -
  have a: "readable text_file" by (simp add: text_file_def)
  have b: "CHR '','' \<notin> set (file_type text_file)" by (simp add: text_file_def)
  have c: "fileToGenerativePart text_file =
      Fulfilled \<lparr>data = Some ''aGk='', mimeType = ''text/plain''\<rparr>"
    by (simp add: fileToGenerativePart_def readAsDataURL_def text_file_def at_index_def
          base64_alphabet_def)
  from encoding_round_trip [OF a b] c
  have "decode_part \<lparr>data = Some ''aGk='', mimeType = ''text/plain''\<rparr> =
      Some (content text_file, file_type text_file)" by simp
  then have d: "decode_part \<lparr>data = Some ''aGk='', mimeType = ''text/plain''\<rparr> =
      Some ([0x68, 0x69], ''text/plain'')" by (simp add: text_file_def)
  from a b c d show ?thesis by blast
qed

text \<open>
  The claim as it was stated fails: for a file that can be read and whose MIME type holds a
  comma, \<^verbatim>\<open>split(',')[1]\<close> is a piece of the type and not the payload, which is
  \<^verbatim>\<open>aGk=\<close> for these two bytes; the piece does not decode.
\<close>

theorem encoding_comma_type_lost:
  "readable comma_file \<and> content comma_file = [0x68, 0x69] \<and>
   base64 (content comma_file) = ''aGk='' \<and>
   fileToGenerativePart comma_file =
     Fulfilled \<lparr>data = Some ''b\";base64'', mimeType = ''text/plain;title=\"a,b\"''\<rparr> \<and>
   decode_part \<lparr>data = Some ''b\";base64'', mimeType = ''text/plain;title=\"a,b\"''\<rparr> = None"
proof -
  have "CHR 0x22 \<notin> set base64_alphabet" by (simp add: base64_alphabet_def)
  then have quote: "base64_value (CHR 0x22) = None"
    by (simp add: base64_value_def map_of_zip_is_None base64_alphabet_def)
  have a: "readable comma_file" "content comma_file = [0x68, 0x69]"
    "base64 (content comma_file) = ''aGk=''"
    by (simp_all add: comma_file_def text_file_def base64_alphabet_def)
  have b: "fileToGenerativePart comma_file =
      Fulfilled \<lparr>data = Some ''b\";base64'', mimeType = ''text/plain;title=\"a,b\"''\<rparr>"
    by (simp add: comma_file_def text_file_def fileToGenerativePart_def readAsDataURL_def
          at_index_def)
  have c: "decode_part \<lparr>data = Some ''b\";base64'', mimeType = ''text/plain;title=\"a,b\"''\<rparr> =
      None"
    by (simp add: decode_part_def quote split: option.splits)
  from a b c show ?thesis by blast
qed

text \<open>
  Claim C7, as amended.  The entries are those that are rendered at all: a trio entry that
  has a programme, and a course that has a programme and a rationale list.  Such an entry
  whose programme contains \<^verbatim>\<open>mba\<close> in any case is rendered with the fee-cap advisory
  in its card.  One whose programme does not contain it is rendered with the advisory slot
  empty, and its card does not contain the advisory as long as its other fields are plain:
  the fields are interpolated as they are, so a field that carries markup can bring the
  advisory in.  \<open>mentions_mba\<close> states the condition on the letters of the programme;
  the code tests \<^verbatim>\<open>toLowerCase().includes('mba')\<close>, which is the same
  (\<open>isMBA_mentions_mba\<close>).
\<close>

theorem mba_advisory_rule:
  "(trio_programme t = Some p \<longrightarrow>
      (mentions_mba p \<longrightarrow> (\<exists>h. trioCard t = Inr h \<and> sublist mbaAdvisory h)) \<and>
      (\<not> mentions_mba p \<and> plain_field (trio_university t) \<and> plain_field (why_this_trio t) \<longrightarrow>
         (\<exists>h. trioCard t = Inr h \<and> \<not> sublist mbaAdvisory h))) \<and>
   (programme c = Some q \<and> chevening_rationale c \<noteq> None \<longrightarrow>
      (mentions_mba q \<longrightarrow> (\<exists>h. courseCard c = Inr h \<and> sublist mbaAdvisory h)) \<and>
      (\<not> mentions_mba q \<and> plain_course c \<longrightarrow>
         (\<exists>h. courseCard c = Inr h \<and> \<not> sublist mbaAdvisory h)))"
proof (intro conjI impI)
  assume "trio_programme t = Some p" "mentions_mba p"
  then show "\<exists>h. trioCard t = Inr h \<and> sublist mbaAdvisory h"
    by (rule trioCard_with_advisory)
next
  assume a: "trio_programme t = Some p"
    and b: "\<not> mentions_mba p \<and> plain_field (trio_university t) \<and> plain_field (why_this_trio t)"
  from trioCard_without_advisory [OF a] b
  show "\<exists>h. trioCard t = Inr h \<and> \<not> sublist mbaAdvisory h"
    by (auto simp: sublist_occurrences)
next
  assume a: "programme c = Some q \<and> chevening_rationale c \<noteq> None" and b: "mentions_mba q"
  then obtain rs where "chevening_rationale c = Some rs" by auto
  with a b show "\<exists>h. courseCard c = Inr h \<and> sublist mbaAdvisory h"
    using courseCard_with_advisory by blast
next
  assume a: "programme c = Some q \<and> chevening_rationale c \<noteq> None"
    and b: "\<not> mentions_mba q \<and> plain_course c"
  then obtain rs where "chevening_rationale c = Some rs" by auto
  with a b courseCard_without_advisory [of c q rs]
  show "\<exists>h. courseCard c = Inr h \<and> \<not> sublist mbaAdvisory h"
    by (auto simp: sublist_occurrences)
qed

theorem mba_advisory_rule_witness:
  "trio_programme mba_trio_entry = Some ''Executive MBA'' \<and> mentions_mba ''Executive MBA'' \<and>
   sublist mbaAdvisory (fragment (trioCard mba_trio_entry)) \<and>
   trio_programme msc_trio_entry = Some ''MSc Finance'' \<and> \<not> mentions_mba ''MSc Finance'' \<and>
   plain_field (trio_university msc_trio_entry) \<and> plain_field (why_this_trio msc_trio_entry) \<and>
   fragment (trioCard msc_trio_entry) \<noteq> [] \<and>
   \<not> sublist mbaAdvisory (fragment (trioCard msc_trio_entry)) \<and>
   programme mba_course = Some ''Global mba (online)'' \<and> mentions_mba ''Global mba (online)'' \<and>
   chevening_rationale mba_course \<noteq> None \<and>
   sublist mbaAdvisory (fragment (courseCard mba_course)) \<and>
   programme msc_course = Some ''MSc Finance'' \<and> chevening_rationale msc_course \<noteq> None \<and>
   plain_course msc_course \<and>
   fragment (courseCard msc_course) \<noteq> [] \<and>
   \<not> sublist mbaAdvisory (fragment (courseCard msc_course))"
proof -
  have t1: "trio_programme mba_trio_entry = Some ''Executive MBA''"
    by (simp add: mba_trio_entry_def)
  have m1: "mentions_mba ''Executive MBA''" by simp
  have t2: "trio_programme msc_trio_entry = Some ''MSc Finance''"
    by (simp add: msc_trio_entry_def)
  have m2: "\<not> mentions_mba ''MSc Finance''" by simp
  have p2: "plain_field (trio_university msc_trio_entry)" "plain_field (why_this_trio msc_trio_entry)"
    by (simp_all add: msc_trio_entry_def plain_field_def plain_def)
  have c1: "programme mba_course = Some ''Global mba (online)''"
    "chevening_rationale mba_course \<noteq> None"
    by (simp_all add: mba_course_def msc_course_def)
  have m3: "mentions_mba ''Global mba (online)''" by simp
  have c2: "programme msc_course = Some ''MSc Finance''" "chevening_rationale msc_course \<noteq> None"
    by (simp_all add: msc_course_def)
  have p4: "plain_course msc_course"
    by (simp add: msc_course_def plain_course_def plain_field_def plain_def)
  from mba_advisory_rule [of mba_trio_entry "''Executive MBA''" mba_course "''Global mba (online)''"]
    t1 m1 c1 m3
  have r1: "sublist mbaAdvisory (fragment (trioCard mba_trio_entry))"
    and r3: "sublist mbaAdvisory (fragment (courseCard mba_course))"
    by (auto simp: fragment_def)
  from mba_advisory_rule [of msc_trio_entry "''MSc Finance''" msc_course "''MSc Finance''"]
    t2 m2 p2 c2 p4
  obtain h k where "trioCard msc_trio_entry = Inr h" "\<not> sublist mbaAdvisory h"
    "courseCard msc_course = Inr k" "\<not> sublist mbaAdvisory k"
    by blast
  then have r2: "fragment (trioCard msc_trio_entry) \<noteq> []"
      "\<not> sublist mbaAdvisory (fragment (trioCard msc_trio_entry))"
    and r4: "fragment (courseCard msc_course) \<noteq> []"
      "\<not> sublist mbaAdvisory (fragment (courseCard msc_course))"
    by (auto simp: fragment_def trioCard_def courseCard_def Let_def
          split: option.splits if_splits)
  from t1 m1 r1 t2 m2 p2 r2 c1 m3 r3 c2 p4 r4 show ?thesis by blast
qed

text \<open>
  The claim as it was stated fails: a course whose programme is \<^verbatim>\<open>MSc Finance\<close> and whose
  university field holds the text of the advisory is rendered with the advisory in its card.
\<close>

theorem mba_advisory_injected:
  "programme injected_course = Some ''MSc Finance'' \<and> \<not> mentions_mba ''MSc Finance'' \<and>
   sublist mbaAdvisory (fragment (courseCard injected_course))"
  by (simp add: injected_course_def msc_course_def courseCard_def fragment_def
        isMBA_mentions_mba interp_def sublist_in_text)

text \<open>
  Claim C8, as amended.  For a trio whose entries have a programme and plain text fields,
  the rendered fragment holds the diversification advisory once when all entries share one
  university and there is more than one entry, and not at all otherwise.  So a trio of
  three entries of one university holds it exactly once, and a trio with two different
  universities does not hold it.
\<close>

theorem diversification_advisory_rule:
  "list_all (\<lambda>c. trio_programme c \<noteq> None \<and> plain_trio_entry c) trio \<longrightarrow>
     (\<exists>h. renderTrio trio = Inr h \<and>
          occurrences diversifyAdvisory h = (if shares_university trio then 1 else 0) \<and>
          (length trio = 3 \<and> (\<forall>c \<in> set trio. trio_university c = u) \<longrightarrow>
             occurrences diversifyAdvisory h = 1) \<and>
          ((\<exists>a \<in> set trio. \<exists>b \<in> set trio. trio_university a \<noteq> trio_university b) \<longrightarrow>
             \<not> sublist diversifyAdvisory h))"
proof
  assume ok: "list_all (\<lambda>c. trio_programme c \<noteq> None \<and> plain_trio_entry c) trio"
  from renderTrio_occurrences [OF ok] obtain h
    where h: "renderTrio trio = Inr h"
      "occurrences diversifyAdvisory h = (if shares_university trio then 1 else 0)"
    by (auto simp: shares_university_eq)
  have same: "shares_university trio"
    if "length trio = 3 \<and> (\<forall>c \<in> set trio. trio_university c = u)"
  proof -
    from that have "trio \<noteq> []" by auto
    then have "hd trio \<in> set trio" by simp
    with that show ?thesis by (simp add: shares_university_def)
  qed
  have mixed: "\<not> shares_university trio"
    if "\<exists>a \<in> set trio. \<exists>b \<in> set trio. trio_university a \<noteq> trio_university b"
  proof
    assume sh: "shares_university trio"
    from that obtain a b where ab: "a \<in> set trio" "b \<in> set trio"
        "trio_university a \<noteq> trio_university b" by blast
    from sh ab(1,2) have "trio_university a = trio_university (hd trio)"
        "trio_university b = trio_university (hd trio)"
      by (simp_all add: shares_university_def)
    with ab(3) show False by simp
  qed
  from h same mixed show "\<exists>h. renderTrio trio = Inr h \<and>
          occurrences diversifyAdvisory h = (if shares_university trio then 1 else 0) \<and>
          (length trio = 3 \<and> (\<forall>c \<in> set trio. trio_university c = u) \<longrightarrow>
             occurrences diversifyAdvisory h = 1) \<and>
          ((\<exists>a \<in> set trio. \<exists>b \<in> set trio. trio_university a \<noteq> trio_university b) \<longrightarrow>
             \<not> sublist diversifyAdvisory h)"
    by (auto simp: sublist_occurrences)
qed

theorem diversification_advisory_rule_witness:
  "list_all (\<lambda>c. trio_programme c \<noteq> None \<and> plain_trio_entry c) leeds_trio \<and>
   length leeds_trio = 3 \<and> shares_university leeds_trio \<and>
   (\<exists>h. renderTrio leeds_trio = Inr h \<and> occurrences diversifyAdvisory h = 1) \<and>
   list_all (\<lambda>c. trio_programme c \<noteq> None \<and> plain_trio_entry c) mixed_trio \<and>
   trio_university (mixed_trio ! 0) \<noteq> trio_university (mixed_trio ! 2) \<and>
   (\<exists>h. renderTrio mixed_trio = Inr h \<and> \<not> sublist diversifyAdvisory h)"
proof -
  have a: "list_all (\<lambda>c. trio_programme c \<noteq> None \<and> plain_trio_entry c) leeds_trio"
    by (simp add: leeds_trio_def msc_trio_entry_def mba_trio_entry_def plain_trio_entry_def
          plain_field_def plain_def)
  have b: "length leeds_trio = 3 \<and> (\<forall>c \<in> set leeds_trio. trio_university c = Some ''Leeds'')"
    by (simp add: leeds_trio_def msc_trio_entry_def mba_trio_entry_def)
  have c: "shares_university leeds_trio"
    by (simp add: shares_university_def leeds_trio_def msc_trio_entry_def mba_trio_entry_def)
  have d: "list_all (\<lambda>c. trio_programme c \<noteq> None \<and> plain_trio_entry c) mixed_trio"
    by (simp add: mixed_trio_def msc_trio_entry_def mba_trio_entry_def plain_trio_entry_def
          plain_field_def plain_def)
  have e: "trio_university (mixed_trio ! 0) \<noteq> trio_university (mixed_trio ! 2)"
    by (simp add: mixed_trio_def msc_trio_entry_def)
  have "mixed_trio ! 0 \<in> set mixed_trio" "mixed_trio ! 2 \<in> set mixed_trio"
    by (simp_all add: mixed_trio_def)
  with e
  have f: "\<exists>a \<in> set mixed_trio. \<exists>b \<in> set mixed_trio. trio_university a \<noteq> trio_university b"
    by blast
  from diversification_advisory_rule [of leeds_trio "Some ''Leeds''"] a b
  have r1: "\<exists>h. renderTrio leeds_trio = Inr h \<and> occurrences diversifyAdvisory h = 1"
    by blast
  from diversification_advisory_rule [of mixed_trio None] d f
  have r2: "\<exists>h. renderTrio mixed_trio = Inr h \<and> \<not> sublist diversifyAdvisory h"
    by blast
  from a b c d e r1 r2 show ?thesis by blast
qed

text \<open>
  The claim as it was stated fails: a trio of three different universities in which one
  entry's reason holds the text of the advisory is rendered with the advisory in it.
\<close>

theorem diversification_advisory_injected:
  "trio_university (injected_trio ! 0) \<noteq> trio_university (injected_trio ! 1) \<and>
   sublist diversifyAdvisory (fragment (renderTrio injected_trio))"
  by (simp add: injected_trio_def renderTrio_def trioCard_def fragment_def join_def interp_def
        includes_str_def toLowerCase_def lower_def sublist_code sublist_in_text)

text \<open>
  Claim C9.  Started at any time and ticking from there, the countdown shows the time left
  at the latest tick for as long as that tick came before the deadline, and its interval is
  live: the text reads as days, hours below 24, minutes below 60 and seconds below 60 that
  add up to the whole seconds between that tick and the deadline, so the next tick, a
  second or more later, changes the text.  At the first tick at or after the deadline the
  countdown shows that the deadline has passed and its interval is cleared; from then on no
  step changes the state.
\<close>

theorem countdown_freezes:
  "rtranclp tick (t0, setDeadline t0 s0) (t, s) \<longrightarrow>
     (t < deadline \<longrightarrow>
        live s \<and> display s = remaining_text (deadline - t) \<and>
        (\<exists>days hours minutes seconds.
           read_countdown (display s) = Some (days, hours, minutes, seconds) \<and>
           hours < 24 \<and> minutes < 60 \<and> seconds < 60 \<and>
           int (((days * 24 + hours) * 60 + minutes) * 60 + seconds) = (deadline - t) div 1000) \<and>
        (\<forall>t' s'. tick (t, s) (t', s') \<and> t + 1000 \<le> t' \<longrightarrow> display s' \<noteq> display s)) \<and>
     (deadline \<le> t \<longrightarrow>
        \<not> live s \<and> display s = ''The deadline has passed.'' \<and>
        (\<forall>t' s'. rtranclp tick (t, s) (t', s') \<longrightarrow> s' = s))"
proof (intro impI conjI allI)
  assume r: "rtranclp tick (t0, setDeadline t0 s0) (t, s)"
  note P = countdown_reachable [OF r]
  { assume "t < deadline" with P show "live s" by simp }
  { assume "t < deadline" with P show "display s = remaining_text (deadline - t)" by simp }
  { assume b: "t < deadline"
    with P have "display s = remaining_text (deadline - t)" by simp
    with remaining_text_read [of "deadline - t"] b
    show "\<exists>days hours minutes seconds.
           read_countdown (display s) = Some (days, hours, minutes, seconds) \<and>
           hours < 24 \<and> minutes < 60 \<and> seconds < 60 \<and>
           int (((days * 24 + hours) * 60 + minutes) * 60 + seconds) = (deadline - t) div 1000"
      by simp }
  { fix t' s' assume b: "t < deadline" and st: "tick (t, s) (t', s') \<and> t + 1000 \<le> t'"
    from P b have now: "live s" "display s = remaining_text (deadline - t)" by simp_all
    from st now tick_cases [of t s t' s'] have s': "s' = updateCountdown t' s" by simp
    show "display s' \<noteq> display s"
    proof (cases "t' < deadline")
      case True
      with s' have "display s' = remaining_text (deadline - t')" by (simp add: updateCountdown_def)
      moreover have "remaining_text (deadline - t') \<noteq> remaining_text (deadline - t)"
        using True b st by (intro remaining_text_changes a_second_later) simp_all
      ultimately show ?thesis using now by simp
    next
      case False
      with s' have "display s' = ''The deadline has passed.''" by (simp add: updateCountdown_def)
      moreover from remaining_text_read [of "deadline - t"] b
      have "read_countdown (remaining_text (deadline - t)) \<noteq> None" by auto
      ultimately show ?thesis using now passed_text_unread by auto
    qed }
  { assume "deadline \<le> t" with P show "\<not> live s" by simp }
  { assume "deadline \<le> t" with P show "display s = ''The deadline has passed.''" by simp }
  { fix t' s' assume "deadline \<le> t" "rtranclp tick (t, s) (t', s')"
    with P show "s' = s" using countdown_frozen by auto }
qed

theorem countdown_freezes_witness:
  "rtranclp tick (deadline - 2000, setDeadline (deadline - 2000) clock0)
     (deadline - 2000, setDeadline (deadline - 2000) clock0) \<and>
   deadline - 2000 < deadline \<and>
   display (setDeadline (deadline - 2000) clock0) = ''0d 0h 0m 2s'' \<and>
   read_countdown ''0d 0h 0m 2s'' = Some (0, 0, 0, 2) \<and>
   tick (deadline - 2000, setDeadline (deadline - 2000) clock0)
     (deadline - 1000, \<lparr>display = ''0d 0h 0m 1s'', live = True\<rparr>) \<and>
   deadline - 2000 + 1000 \<le> deadline - 1000 \<and>
   ''0d 0h 0m 1s'' \<noteq> display (setDeadline (deadline - 2000) clock0) \<and>
   rtranclp tick (deadline - 2000, setDeadline (deadline - 2000) clock0)
     (deadline, \<lparr>display = ''The deadline has passed.'', live = False\<rparr>) \<and>
   rtranclp tick (deadline, \<lparr>display = ''The deadline has passed.'', live = False\<rparr>)
     (deadline + 1000, \<lparr>display = ''The deadline has passed.'', live = False\<rparr>)"
proof -
  let ?s1 = "setDeadline (deadline - 2000) clock0"
  let ?s2 = "\<lparr>display = ''0d 0h 0m 1s'', live = True\<rparr>"
  let ?s3 = "\<lparr>display = ''The deadline has passed.'', live = False\<rparr>"
  have shown: "remaining_text 2000 = ''0d 0h 0m 2s''" "remaining_text 1000 = ''0d 0h 0m 1s''"
    by (simp_all add: remaining_text_def show_int_def show_nat.simps)
  have s1: "?s1 = \<lparr>display = ''0d 0h 0m 2s'', live = True\<rparr>"
    by (simp add: setDeadline_def updateCountdown_def clock0_def shown)
  have a: "rtranclp tick (deadline - 2000, ?s1) (deadline - 2000, ?s1)" by simp
  have "tick (deadline - 2000, ?s1) (deadline - 2000 + 1000, updateCountdown (deadline - 2000 + 1000) ?s1)"
    by (rule tick.fires) (simp_all add: s1)
  then have t12: "tick (deadline - 2000, ?s1) (deadline - 1000, ?s2)"
    by (simp add: s1 updateCountdown_def shown)
  have "tick (deadline - 1000, ?s2) (deadline - 1000 + 1000, updateCountdown (deadline - 1000 + 1000) ?s2)"
    by (rule tick.fires) simp_all
  then have t23: "tick (deadline - 1000, ?s2) (deadline, ?s3)"
    by (simp add: updateCountdown_def)
  from t12 t23 have b: "rtranclp tick (deadline - 2000, ?s1) (deadline, ?s3)" by simp
  have "tick (deadline, ?s3) (deadline + 1000, ?s3)" by (rule tick.stopped) simp_all
  then have c: "rtranclp tick (deadline, ?s3) (deadline + 1000, ?s3)" by (rule r_into_rtranclp)
  note W = countdown_freezes [of "deadline - 2000" clock0 "deadline - 2000" ?s1]
  from W a have d: "display ?s1 = remaining_text (deadline - (deadline - 2000))" by simp
  then have d': "display ?s1 = ''0d 0h 0m 2s''" by (simp add: shown)
  have e: "read_countdown ''0d 0h 0m 2s'' = Some (0, 0, 0, 2)"
    by (simp add: read_countdown_def read_field_def is_digit_def read_nat_def digit_value_def
          upt_rec)
  have lt: "deadline - 2000 < deadline" and le: "deadline - 2000 + 1000 \<le> deadline - 1000"
    by simp_all
  from W a lt
  have "\<forall>t' s'. tick (deadline - 2000, ?s1) (t', s') \<and> deadline - 2000 + 1000 \<le> t' \<longrightarrow>
      display s' \<noteq> display ?s1"
    by blast
  with t12 le have "display ?s2 \<noteq> display ?s1" by blast
  then have f: "''0d 0h 0m 1s'' \<noteq> display ?s1" by simp
  from countdown_freezes [of "deadline - 2000" clock0 deadline ?s3] b c
  have "?s3 = ?s3" by simp
  with a b c d' e f t12 show ?thesis by simp
qed

text \<open>
  Claim C10.  \<open>showError\<close> empties the results before it fills and shows the error panel,
  and so does a submission that is refused before the loading view (no file, or a file
  type outside the allow-list).  On a page where rendered results and a filled, shown
  error panel do not stand together, no sequence of operations of the controller brings
  them together.
\<close>

theorem error_display_discards_results:
  "resultsHTML (showError m s) = [] \<and> \<not> errorHidden (showError m s) \<and>
   (cvFile frm = None \<or> (\<exists>f. cvFile frm = Some f \<and> file_type f \<notin> set allowedTypes)
      \<longrightarrow> resultsHTML (page (submit rb g p frm s)) = []) \<and>
   (\<not> results_beside_error s \<longrightarrow> rtranclp controller_step s s' \<longrightarrow>
      \<not> results_beside_error s')"
proof (intro conjI impI)
  show "resultsHTML (showError m s) = []" by (simp add: showError_fields)
  show "\<not> errorHidden (showError m s)" by (simp add: showError_fields)
next
  assume "cvFile frm = None \<or> (\<exists>f. cvFile frm = Some f \<and> file_type f \<notin> set allowedTypes)"
  then show "resultsHTML (page (submit rb g p frm s)) = []"
    by (auto simp: submit_def showError_fields)
next
  assume inv: "\<not> results_beside_error s" and run: "rtranclp controller_step s s'"
  from run inv show "\<not> results_beside_error s'"
    by (induction rule: rtranclp_induct) (auto dest: controller_step_invariant)
qed

theorem error_display_discards_results_witness:
  "\<not> results_beside_error stale_page \<and> resultsHTML stale_page \<noteq> [] \<and>
   cvFile blank_form = None \<and>
   rtranclp controller_step stale_page
     (page (submit (\<lambda>m. m) (\<lambda>r. Resolves None) (\<lambda>t. Inl (SyntaxError [])) blank_form stale_page)) \<and>
   resultsHTML
     (page (submit (\<lambda>m. m) (\<lambda>r. Resolves None) (\<lambda>t. Inl (SyntaxError [])) blank_form stale_page)) = [] \<and>
   \<not> results_beside_error
     (page (submit (\<lambda>m. m) (\<lambda>r. Resolves None) (\<lambda>t. Inl (SyntaxError [])) blank_form stale_page))"
proof -
  let ?after = "page (submit (\<lambda>m. m) (\<lambda>r. Resolves None) (\<lambda>t. Inl (SyntaxError [])) blank_form stale_page)"
  have a: "\<not> results_beside_error stale_page"
    by (simp add: results_beside_error_def stale_page_def page0_def)
  have b: "cvFile blank_form = None" by (simp add: blank_form_def)
  have c: "rtranclp controller_step stale_page ?after"
    by (rule r_into_rtranclp) (rule controller_step.submitted)
  have d: "resultsHTML stale_page \<noteq> []" by (simp add: stale_page_def page0_def)
  from error_display_discards_results
    [of "[]" stale_page blank_form "\<lambda>m. m" "\<lambda>r. Resolves None" "\<lambda>t. Inl (SyntaxError [])" ?after]
    a b c d
  show ?thesis by simp
qed

end
